theory Spec2Isabelle
  imports Complex_Main "HOL-Library.Multiset"
begin

section \<open>Student record service (DB2.js)\<close>

text \<open>
  The service is one Express application over one Mongoose model. The theory has
  three layers:
  \<^item> the JavaScript string operations the schema options rely on (\<open>trim\<close>,
    \<open>toLowerCase\<close>, the \<open>match\<close> regular expression);
  \<^item> the schema of lines 19-60 read with Mongoose's meaning of each option, and the
    model's static methods the handlers call (\<open>create\<close>, \<open>find\<close>, \<open>findById\<close>,
    \<open>findByIdAndUpdate\<close>, \<open>findByIdAndDelete\<close>) over a collection held as a list in
    insertion order;
  \<^item> the six handlers of lines 68-245, each a \<open>try\<close>/\<open>catch\<close> around one call of the
    model, translated branch by branch.

  Conventions. A JavaScript string is a \<open>string\<close> whose characters stand for the code
  units 0..255. A number is a \<open>rat\<close>; a date is its millisecond time stamp, an
  \<open>int\<close>. The version key \<open>__v\<close> of a document is left out of the record.
\<close>

subsection \<open>JavaScript strings\<close>

text \<open>\<open>String.prototype.trim\<close> removes white space and line terminators at both ends.\<close>

definition isWhiteSpace :: "char \<Rightarrow> bool" where
  "isWhiteSpace c = ((of_char c :: nat) \<in> {9, 10, 11, 12, 13, 32, 160})"

definition trim :: "string \<Rightarrow> string" where
  "trim s = rev (dropWhile isWhiteSpace (rev (dropWhile isWhiteSpace s)))"

text \<open>\<open>String.prototype.toLowerCase\<close> on the code units 0..255: the letters A-Z and the
  accented capitals 192..222 (without the multiplication sign 215) move up by 32.\<close>

definition lowerChar :: "char \<Rightarrow> char" where
  "lowerChar c =
     (let n = (of_char c :: nat)
      in if (65 \<le> n \<and> n \<le> 90) \<or> (192 \<le> n \<and> n \<le> 222 \<and> n \<noteq> 215)
         then char_of (n + 32) else c)"

definition toLowerCase :: "string \<Rightarrow> string" where
  "toLowerCase s = map lowerChar s"

definition quoted :: "string \<Rightarrow> string" where
  "quoted s = CHR 0x22 # s @ [CHR 0x22]"

subsection \<open>Regular expressions\<close>

text \<open>
  The \<open>match\<close> option of the \<open>email\<close> path is anchored at both ends and uses only
  classes, groups, \<open>?\<close>, \<open>*\<close>, \<open>+\<close> and a bounded repetition, so \<open>RegExp.test\<close>
  decides membership in a regular language. The matcher takes the derivative of the
  expression by each character in turn.
\<close>

datatype rexp =
    Zero
  | One
  | Sym "char \<Rightarrow> bool"
  | Alt rexp rexp
  | Seq rexp rexp
  | Star rexp

fun nullable :: "rexp \<Rightarrow> bool" where
  "nullable Zero = False"
| "nullable One = True"
| "nullable (Sym p) = False"
| "nullable (Alt r s) = (nullable r \<or> nullable s)"
| "nullable (Seq r s) = (nullable r \<and> nullable s)"
| "nullable (Star r) = True"

text \<open>Sums and products that drop the branches no string can match, so that a
  derivative stays small.\<close>

fun alt :: "rexp \<Rightarrow> rexp \<Rightarrow> rexp" where
  "alt Zero s = s"
| "alt r Zero = r"
| "alt r s = Alt r s"

fun seq :: "rexp \<Rightarrow> rexp \<Rightarrow> rexp" where
  "seq Zero s = Zero"
| "seq r Zero = Zero"
| "seq One s = s"
| "seq r s = Seq r s"

fun deriv :: "char \<Rightarrow> rexp \<Rightarrow> rexp" where
  "deriv c Zero = Zero"
| "deriv c One = Zero"
| "deriv c (Sym p) = (if p c then One else Zero)"
| "deriv c (Alt r s) = alt (deriv c r) (deriv c s)"
| "deriv c (Seq r s) =
     (if nullable r then alt (seq (deriv c r) s) (deriv c s) else seq (deriv c r) s)"
| "deriv c (Star r) = seq (deriv c r) (Star r)"

fun test :: "rexp \<Rightarrow> string \<Rightarrow> bool" where
  "test r [] = nullable r"
| "test r (c # cs) = test (deriv c r) cs"

definition Opt :: "rexp \<Rightarrow> rexp" where
  "Opt r = Alt One r"

definition Plus :: "rexp \<Rightarrow> rexp" where
  "Plus r = Seq r (Star r)"

text \<open>\<open>\w\<close> is \<open>[A-Za-z0-9_]\<close>.\<close>

definition wordChar :: "char \<Rightarrow> bool" where
  "wordChar c =
     (let n = (of_char c :: nat)
      in (48 \<le> n \<and> n \<le> 57) \<or> (65 \<le> n \<and> n \<le> 90) \<or> n = 95 \<or> (97 \<le> n \<and> n \<le> 122))"

definition dotOrDash :: "char \<Rightarrow> bool" where
  "dotOrDash c = (c = CHR ''.'' \<or> c = CHR ''-'')"

definition isDot :: "char \<Rightarrow> bool" where
  "isDot c = (c = CHR ''.'')"

definition isAt :: "char \<Rightarrow> bool" where
  "isAt c = (c = CHR ''@'')"

text \<open>Line 47: \<^verbatim>\<open>/^\w+([.-]?\w+)*@\w+([.-]?\w+)*(\.\w{2,3})+$/\<close>.\<close>

definition words :: rexp where
  "words = Seq (Plus (Sym wordChar)) (Star (Seq (Opt (Sym dotOrDash)) (Plus (Sym wordChar))))"

definition emailPattern :: rexp where
  "emailPattern =
     Seq words
       (Seq (Sym isAt)
         (Seq words
           (Plus (Seq (Sym isDot)
             (Seq (Sym wordChar) (Seq (Sym wordChar) (Opt (Sym wordChar))))))))"

subsection \<open>Identifiers\<close>

text \<open>
  An \<open>ObjectId\<close> is twelve bytes. The cast of a path parameter accepts what the
  driver's \<open>ObjectID.isValid\<close> accepts for a string: any string of twelve characters,
  read as the bytes themselves, or twenty-four hexadecimal digits. Every other string
  fails the cast.
\<close>

type_synonym objectid = "nat list"

text \<open>The value \<open>null\<close> of the path \<open>_id\<close>, which a body can carry, is written as
  the empty list of bytes: no cast of a string yields it.\<close>

definition nullId :: objectid where
  "nullId = []"

definition hexDigit :: "char \<Rightarrow> nat option" where
  "hexDigit c =
     (let n = (of_char c :: nat)
      in if 48 \<le> n \<and> n \<le> 57 then Some (n - 48)
         else if 97 \<le> n \<and> n \<le> 102 then Some (n - 87)
         else if 65 \<le> n \<and> n \<le> 70 then Some (n - 55)
         else None)"

fun fromHex :: "string \<Rightarrow> nat list option" where
  "fromHex [] = Some []"
| "fromHex [c] = None"
| "fromHex (a # b # cs) =
     (case hexDigit a of
        None \<Rightarrow> None
      | Some h \<Rightarrow>
          (case hexDigit b of
             None \<Rightarrow> None
           | Some l \<Rightarrow>
               (case fromHex cs of
                  None \<Rightarrow> None
                | Some bytes \<Rightarrow> Some ((16 * h + l) # bytes))))"

definition castObjectId :: "string \<Rightarrow> objectid option" where
  "castObjectId s =
     (if length s = 12 then Some (map of_char s)
      else if length s = 24 then fromHex s
      else None)"

subsection \<open>Request bodies\<close>

text \<open>
  \<open>express.json()\<close> hands the handler a parsed JSON object, and the handlers pass
  it whole to the model (lines 119 and 154). Mongoose reads from it the keys that are
  paths of the schema and drops the others: the six paths declared in lines 20-57,
  the path \<open>_id\<close> that every schema has, and the paths \<open>createdAt\<close> and
  \<open>updatedAt\<close> that \<open>timestamps: true\<close> (line 59) adds. Each key is seen through
  the cast of its schema type (\<open>String\<close>, \<open>Number\<close>, \<open>Date\<close>, \<open>ObjectId\<close>), whose
  outcome is one of four: the key is absent; the value is \<open>null\<close> (JSON \<open>null\<close>,
  and for \<open>Number\<close> and \<open>Date\<close> also the empty string); the value cannot be cast
  (for instance the string \<open>abc\<close> for a \<open>Number\<close>), carrying the text of the value
  for the message; or the cast value.
\<close>

datatype 'a input = Absent | Null | Uncastable string | Value 'a

record body =
  name_in :: "string input"
  age_in :: "rat input"
  course_in :: "string input"
  email_in :: "string input"
  grade_in :: "string input"
  enrollmentDate_in :: "int input"
  id_in :: "objectid input"
  createdAt_in :: "int input"
  updatedAt_in :: "int input"

definition isUncastable :: "'a input \<Rightarrow> bool" where
  "isUncastable x = (case x of Uncastable raw \<Rightarrow> True | _ \<Rightarrow> False)"

text \<open>Some value of the body that an update casts fails the cast of its path. The
  keys \<open>createdAt\<close> and \<open>updatedAt\<close> are not among them: the hook of
  \<open>timestamps\<close> takes them out of the update before it is cast.\<close>

definition castFails :: "body \<Rightarrow> bool" where
  "castFails b =
     (isUncastable (name_in b) \<or> isUncastable (age_in b) \<or> isUncastable (course_in b) \<or>
      isUncastable (email_in b) \<or> isUncastable (grade_in b) \<or>
      isUncastable (enrollmentDate_in b) \<or> isUncastable (id_in b))"

text \<open>The two readings of the clock that a create makes: \<open>Date.now\<close> for the
  default of \<open>enrollmentDate\<close> when the document is constructed, and the time
  stamp when it is saved.\<close>

record clock =
  constructed :: int
  saved :: int

definition orElse :: "'a option \<Rightarrow> 'a \<Rightarrow> 'a" where
  "orElse x old = (case x of None \<Rightarrow> old | Some v \<Rightarrow> v)"

subsection \<open>The schema (lines 19-60)\<close>

record student =
  ident :: objectid
  name :: string
  age :: rat
  course :: string
  email :: string
  grade :: string
  enrollmentDate :: "int option"
  createdAt :: int
  updatedAt :: int

type_synonym store = "student list"

definition courses :: "string list" where
  "courses = [''Computer Science'', ''Mathematics'', ''Physics'', ''Chemistry'',
              ''Biology'', ''Engineering'', ''Business'', ''Arts'']"

definition grades :: "string list" where
  "grades = [''A'', ''B'', ''C'', ''D'', ''F'']"

definition castMessage :: "string \<Rightarrow> string \<Rightarrow> string \<Rightarrow> string" where
  "castMessage kind raw path =
     ''Cast to '' @ kind @ '' failed for value '' @ raw @ '' at path '' @ quoted path"

definition enumMessage :: "string \<Rightarrow> string \<Rightarrow> string" where
  "enumMessage v path =
     ''`'' @ v @ ''` is not a valid enum value for path `'' @ path @ ''`.''"

text \<open>
  One function per path: the setters, then the validators in the order the options
  are declared (\<open>required\<close> first), stopping at the first that fails, as
  \<open>SchemaType.doValidate\<close> does. \<open>Inl\<close> is the message recorded for the path, \<open>Inr\<close>
  the value the document holds. The \<open>required\<close> validator of a string refuses
  \<open>undefined\<close>, \<open>null\<close> and the empty string; the other validators skip
  \<open>undefined\<close> only. A value that fails its cast is recorded as the path's error.
\<close>

definition name_path :: "string input \<Rightarrow> string + string" where
  "name_path x =
     (case x of
        Absent \<Rightarrow> Inl ''Student name is required''
      | Null \<Rightarrow> Inl ''Student name is required''
      | Uncastable raw \<Rightarrow> Inl (castMessage ''string'' raw ''name'')
      | Value v \<Rightarrow>
          (let s = trim v
           in if s = [] then Inl ''Student name is required''
              else if length s < 2 then Inl ''Name must be at least 2 characters long''
              else if length s > 50 then Inl ''Name cannot exceed 50 characters''
              else Inr s))"

definition age_path :: "rat input \<Rightarrow> string + rat" where
  "age_path x =
     (case x of
        Absent \<Rightarrow> Inl ''Student age is required''
      | Null \<Rightarrow> Inl ''Student age is required''
      | Uncastable raw \<Rightarrow> Inl (castMessage ''Number'' raw ''age'')
      | Value n \<Rightarrow>
          (if n < 16 then Inl ''Age must be at least 16''
           else if n > 100 then Inl ''Age cannot exceed 100''
           else Inr n))"

definition course_path :: "string input \<Rightarrow> string + string" where
  "course_path x =
     (case x of
        Absent \<Rightarrow> Inl ''Course is required''
      | Null \<Rightarrow> Inl ''Course is required''
      | Uncastable raw \<Rightarrow> Inl (castMessage ''string'' raw ''course'')
      | Value v \<Rightarrow>
          (let s = trim v
           in if s = [] then Inl ''Course is required''
              else if s \<in> set courses then Inr s
              else Inl (s @ '' is not a valid course'')))"

definition email_path :: "string input \<Rightarrow> string + string" where
  "email_path x =
     (case x of
        Absent \<Rightarrow> Inl ''Email is required''
      | Null \<Rightarrow> Inl ''Email is required''
      | Uncastable raw \<Rightarrow> Inl (castMessage ''string'' raw ''email'')
      | Value v \<Rightarrow>
          (let s = toLowerCase v
           in if s = [] then Inl ''Email is required''
              else if test emailPattern s then Inr s
              else Inl ''Please enter a valid email''))"

text \<open>\<open>grade\<close> is not required: an absent key takes the default. An explicit
  \<open>null\<close> is not \<open>undefined\<close>, so the \<open>enum\<close> validator runs on it and refuses it.\<close>

definition grade_path :: "string input \<Rightarrow> string + string" where
  "grade_path x =
     (case x of
        Absent \<Rightarrow> Inr ''C''
      | Null \<Rightarrow> Inl (enumMessage ''null'' ''grade'')
      | Uncastable raw \<Rightarrow> Inl (castMessage ''string'' raw ''grade'')
      | Value v \<Rightarrow> (if v \<in> set grades then Inr v else Inl (enumMessage v ''grade'')))"

text \<open>\<open>enrollmentDate\<close> has no validator; \<open>Date.now\<close> is the default, read at the
  time \<open>t\<close> the document is constructed.\<close>

definition enrollmentDate_path :: "int \<Rightarrow> int input \<Rightarrow> string + int option" where
  "enrollmentDate_path t x =
     (case x of
        Absent \<Rightarrow> Inr (Some t)
      | Null \<Rightarrow> Inr None
      | Uncastable raw \<Rightarrow> Inl (castMessage ''date'' raw ''enrollmentDate'')
      | Value v \<Rightarrow> Inr (Some v))"

text \<open>
  The paths the schema has without declaring them. A body's \<open>_id\<close> is cast to an
  \<open>ObjectId\<close> and, when present, is the identifier of the new document (\<open>Inr None\<close>:
  the generated one is). A body's \<open>createdAt\<close> is cast to a date and kept; when it
  is absent or \<open>null\<close> the hook of \<open>timestamps\<close> writes the time of the save. A
  body's \<open>updatedAt\<close> is cast too, and then overwritten by the hook.
\<close>

definition id_path :: "objectid input \<Rightarrow> string + objectid option" where
  "id_path x =
     (case x of
        Absent \<Rightarrow> Inr None
      | Null \<Rightarrow> Inr (Some nullId)
      | Uncastable raw \<Rightarrow> Inl (castMessage ''ObjectId'' raw ''_id'')
      | Value v \<Rightarrow> Inr (Some v))"

definition createdAt_path :: "int input \<Rightarrow> string + int option" where
  "createdAt_path x =
     (case x of
        Absent \<Rightarrow> Inr None
      | Null \<Rightarrow> Inr None
      | Uncastable raw \<Rightarrow> Inl (castMessage ''date'' raw ''createdAt'')
      | Value v \<Rightarrow> Inr (Some v))"

definition updatedAt_path :: "int input \<Rightarrow> string + int option" where
  "updatedAt_path x =
     (case x of
        Absent \<Rightarrow> Inr None
      | Null \<Rightarrow> Inr None
      | Uncastable raw \<Rightarrow> Inl (castMessage ''date'' raw ''updatedAt'')
      | Value v \<Rightarrow> Inr (Some v))"

text \<open>The paths of the schema, and the message recorded for each: \<open>None\<close> when the
  path passes.\<close>

datatype path =
  Name | Age | Course | Email | Grade | EnrollmentDate | Id | CreatedAt | UpdatedAt

definition schemaPaths :: "path list" where
  "schemaPaths = [Name, Age, Course, Email, Grade, EnrollmentDate, Id, CreatedAt, UpdatedAt]"

definition messageOf :: "string + 'a \<Rightarrow> string option" where
  "messageOf r = (case r of Inl m \<Rightarrow> Some m | Inr v \<Rightarrow> None)"

fun pathError :: "clock \<Rightarrow> body \<Rightarrow> path \<Rightarrow> string option" where
  "pathError now b Name = messageOf (name_path (name_in b))"
| "pathError now b Age = messageOf (age_path (age_in b))"
| "pathError now b Course = messageOf (course_path (course_in b))"
| "pathError now b Email = messageOf (email_path (email_in b))"
| "pathError now b Grade = messageOf (grade_path (grade_in b))"
| "pathError now b EnrollmentDate =
     messageOf (enrollmentDate_path (constructed now) (enrollmentDate_in b))"
| "pathError now b Id = messageOf (id_path (id_in b))"
| "pathError now b CreatedAt = messageOf (createdAt_path (createdAt_in b))"
| "pathError now b UpdatedAt = messageOf (updatedAt_path (updatedAt_in b))"

text \<open>\<open>Object.values(error.errors).map(val => val.message)\<close>: \<open>error.errors\<close> has
  one entry per path that failed. The list is written here in the order of the
  schema; the order in which the library fills \<open>error.errors\<close> is not modelled, and
  no statement below depends on the order of the messages.\<close>

definition validationErrors :: "clock \<Rightarrow> body \<Rightarrow> string list" where
  "validationErrors now b = List.map_filter (pathError now b) schemaPaths"

text \<open>
  \<open>new Student(body)\<close> followed by the validation that \<open>save\<close> runs first: either
  the messages of every failed path, or the document with its defaults. \<open>oid\<close> is
  the identifier generated for the document, used when the body brings none. The
  hook that \<open>timestamps: true\<close> installs runs after the validation: it writes the
  time of the save to \<open>createdAt\<close> unless the body has set it, and gives a new
  document's \<open>updatedAt\<close> the value of its \<open>createdAt\<close>.
\<close>

definition newStudent :: "clock \<Rightarrow> objectid \<Rightarrow> body \<Rightarrow> string list + student" where
  "newStudent now oid b =
     (case name_path (name_in b) of
        Inl m \<Rightarrow> Inl (validationErrors now b)
      | Inr n \<Rightarrow>
     (case age_path (age_in b) of
        Inl m \<Rightarrow> Inl (validationErrors now b)
      | Inr a \<Rightarrow>
     (case course_path (course_in b) of
        Inl m \<Rightarrow> Inl (validationErrors now b)
      | Inr c \<Rightarrow>
     (case email_path (email_in b) of
        Inl m \<Rightarrow> Inl (validationErrors now b)
      | Inr e \<Rightarrow>
     (case grade_path (grade_in b) of
        Inl m \<Rightarrow> Inl (validationErrors now b)
      | Inr g \<Rightarrow>
     (case enrollmentDate_path (constructed now) (enrollmentDate_in b) of
        Inl m \<Rightarrow> Inl (validationErrors now b)
      | Inr d \<Rightarrow>
     (case id_path (id_in b) of
        Inl m \<Rightarrow> Inl (validationErrors now b)
      | Inr i \<Rightarrow>
     (case createdAt_path (createdAt_in b) of
        Inl m \<Rightarrow> Inl (validationErrors now b)
      | Inr cr \<Rightarrow>
     (case updatedAt_path (updatedAt_in b) of
        Inl m \<Rightarrow> Inl (validationErrors now b)
      | Inr up \<Rightarrow>
          Inr \<lparr>ident = orElse i oid, name = n, age = a, course = c, email = e, grade = g,
               enrollmentDate = d, createdAt = orElse cr (saved now),
               updatedAt = orElse cr (saved now)\<rparr>)))))))))"

subsection \<open>Errors thrown by the model\<close>

text \<open>The handlers look at \<open>error.name\<close>, \<open>error.code\<close>, \<open>error.errors\<close> (the
  messages of its values) and \<open>error.message\<close>.\<close>

record thrown =
  err_name :: string
  err_code :: "nat option"
  err_errors :: "string list"
  err_message :: string

definition ValidationError :: "string list \<Rightarrow> thrown" where
  "ValidationError msgs =
     \<lparr>err_name = ''ValidationError'', err_code = None, err_errors = msgs,
      err_message = ''Validation failed''\<rparr>"

definition CastError :: "string \<Rightarrow> thrown" where
  "CastError msg =
     \<lparr>err_name = ''CastError'', err_code = None, err_errors = [], err_message = msg\<rparr>"

text \<open>The server's answer to a write that breaks a unique index: the one on \<open>_id\<close>
  or the one that \<open>unique: true\<close> declares on \<open>email\<close> (line 45).\<close>

definition DuplicateKey :: thrown where
  "DuplicateKey =
     \<lparr>err_name = ''MongoError'', err_code = Some 11000, err_errors = [],
      err_message = ''E11000 duplicate key error''\<rparr>"

text \<open>The server's answer to an update that would give a stored document another
  \<open>_id\<close>.\<close>

definition ImmutableField :: thrown where
  "ImmutableField =
     \<lparr>err_name = ''MongoError'', err_code = Some 66, err_errors = [],
      err_message = ''Performing an update on the path _id would modify the immutable field _id''\<rparr>"

subsection \<open>The model's methods\<close>

text \<open>\<open>Student.find().sort({ createdAt: -1 })\<close>.\<close>

definition Student_find_sorted :: "store \<Rightarrow> thrown + student list" where
  "Student_find_sorted s = Inr (sort_key (\<lambda>d. - createdAt d) s)"

text \<open>\<open>Student.find({ course: c })\<close>. The filter is cast through the schema, and the
  cast of a query runs the path's setters: the \<open>trim\<close> of line 36 is applied to the
  value searched for.\<close>

definition Student_find_course :: "string \<Rightarrow> store \<Rightarrow> thrown + student list" where
  "Student_find_course c s = Inr (filter (\<lambda>d. course d = trim c) s)"

text \<open>\<open>Student.findById(id)\<close>: the first document with the identifier, or \<open>null\<close>.\<close>

definition Student_findById :: "string \<Rightarrow> store \<Rightarrow> thrown + student option" where
  "Student_findById i s =
     (case castObjectId i of
        None \<Rightarrow> Inl (CastError (castMessage ''ObjectId'' (quoted i) ''_id''))
      | Some oid \<Rightarrow> Inr (find (\<lambda>d. ident d = oid) s))"

text \<open>
  \<open>Student.create(body)\<close>: validation first, then the insert, which the server
  refuses when the identifier or the email is already in the collection. \<open>oid\<close> is
  the identifier generated for the document and \<open>now\<close> the clock.
\<close>

definition Student_create ::
  "clock \<Rightarrow> objectid \<Rightarrow> body \<Rightarrow> store \<Rightarrow> thrown + student \<times> store" where
  "Student_create now oid b s =
     (case newStudent now oid b of
        Inl msgs \<Rightarrow> Inl (ValidationError msgs)
      | Inr d \<Rightarrow>
          (if ident d \<in> set (map ident s) \<or> email d \<in> set (map email s)
           then Inl DuplicateKey
           else Inr (d, s @ [d])))"

text \<open>
  \<open>Student.findByIdAndUpdate(id, body, { new: true, runValidators: true })\<close>.
  The body's keys become a \<open>$set\<close>. In order: the hook of \<open>timestamps\<close> takes
  the body's \<open>createdAt\<close> and \<open>updatedAt\<close> out of the update and sets
  \<open>updatedAt\<close> to the time \<open>now\<close>; the filter is cast; the update is cast, and a
  value that cannot be cast throws a \<open>CastError\<close>; the validators run on the paths
  of the \<open>$set\<close> only (\<open>_id\<close> has none); the document is looked up and changed
  by the server. The server refuses a \<open>$set\<close> that would give the document
  another \<open>_id\<close> than it has, and a change of the email to one that another
  document holds, which breaks the unique index; neither refusal has a branch of its
  own in the handler.
\<close>

record changes =
  set_name :: "string option"
  set_age :: "rat option"
  set_course :: "string option"
  set_email :: "string option"
  set_grade :: "string option"
  set_enrollmentDate :: "int option option"
  set_id :: "objectid option"

definition update_path :: "('a input \<Rightarrow> string + 'b) \<Rightarrow> 'a input \<Rightarrow> string + 'b option" where
  "update_path f x =
     (case x of
        Absent \<Rightarrow> Inr None
      | _ \<Rightarrow> (case f x of Inl m \<Rightarrow> Inl m | Inr v \<Rightarrow> Inr (Some v)))"

definition castUpdateError :: "body \<Rightarrow> string option" where
  "castUpdateError b =
     (case name_in b of Uncastable raw \<Rightarrow> Some (castMessage ''string'' raw ''name'') | _ \<Rightarrow>
     (case age_in b of Uncastable raw \<Rightarrow> Some (castMessage ''Number'' raw ''age'') | _ \<Rightarrow>
     (case course_in b of Uncastable raw \<Rightarrow> Some (castMessage ''string'' raw ''course'') | _ \<Rightarrow>
     (case email_in b of Uncastable raw \<Rightarrow> Some (castMessage ''string'' raw ''email'') | _ \<Rightarrow>
     (case grade_in b of Uncastable raw \<Rightarrow> Some (castMessage ''string'' raw ''grade'') | _ \<Rightarrow>
     (case enrollmentDate_in b of
        Uncastable raw \<Rightarrow> Some (castMessage ''date'' raw ''enrollmentDate'')
      | _ \<Rightarrow>
     (case id_in b of
        Uncastable raw \<Rightarrow> Some (castMessage ''ObjectId'' raw ''_id'')
      | _ \<Rightarrow> None)))))))"

fun updatePathError :: "int \<Rightarrow> body \<Rightarrow> path \<Rightarrow> string option" where
  "updatePathError now b Name = messageOf (update_path name_path (name_in b))"
| "updatePathError now b Age = messageOf (update_path age_path (age_in b))"
| "updatePathError now b Course = messageOf (update_path course_path (course_in b))"
| "updatePathError now b Email = messageOf (update_path email_path (email_in b))"
| "updatePathError now b Grade = messageOf (update_path grade_path (grade_in b))"
| "updatePathError now b EnrollmentDate =
     messageOf (update_path (enrollmentDate_path now) (enrollmentDate_in b))"
| "updatePathError now b Id = None"
| "updatePathError now b CreatedAt = None"
| "updatePathError now b UpdatedAt = None"

text \<open>As for a new document, the messages are written in the order of the schema,
  and the order in which the library reports them is not modelled.\<close>

definition updateErrors :: "int \<Rightarrow> body \<Rightarrow> string list" where
  "updateErrors now b = List.map_filter (updatePathError now b) schemaPaths"

text \<open>The \<open>_id\<close> that the \<open>$set\<close> carries, if any (a value that fails its cast
  has thrown before).\<close>

definition idChange :: "objectid input \<Rightarrow> objectid option" where
  "idChange x =
     (case x of
        Absent \<Rightarrow> None
      | Null \<Rightarrow> Some nullId
      | Uncastable raw \<Rightarrow> None
      | Value v \<Rightarrow> Some v)"

definition updateValidators :: "int \<Rightarrow> body \<Rightarrow> string list + changes" where
  "updateValidators now b =
     (case update_path name_path (name_in b) of
        Inl m \<Rightarrow> Inl (updateErrors now b)
      | Inr n \<Rightarrow>
     (case update_path age_path (age_in b) of
        Inl m \<Rightarrow> Inl (updateErrors now b)
      | Inr a \<Rightarrow>
     (case update_path course_path (course_in b) of
        Inl m \<Rightarrow> Inl (updateErrors now b)
      | Inr c \<Rightarrow>
     (case update_path email_path (email_in b) of
        Inl m \<Rightarrow> Inl (updateErrors now b)
      | Inr e \<Rightarrow>
     (case update_path grade_path (grade_in b) of
        Inl m \<Rightarrow> Inl (updateErrors now b)
      | Inr g \<Rightarrow>
     (case update_path (enrollmentDate_path now) (enrollmentDate_in b) of
        Inl m \<Rightarrow> Inl (updateErrors now b)
      | Inr d \<Rightarrow>
          Inr \<lparr>set_name = n, set_age = a, set_course = c, set_email = e, set_grade = g,
               set_enrollmentDate = d, set_id = idChange (id_in b)\<rparr>))))))"

definition applyChanges :: "int \<Rightarrow> changes \<Rightarrow> student \<Rightarrow> student" where
  "applyChanges now ch d =
     \<lparr>ident = orElse (set_id ch) (ident d),
      name = orElse (set_name ch) (name d),
      age = orElse (set_age ch) (age d),
      course = orElse (set_course ch) (course d),
      email = orElse (set_email ch) (email d),
      grade = orElse (set_grade ch) (grade d),
      enrollmentDate = orElse (set_enrollmentDate ch) (enrollmentDate d),
      createdAt = createdAt d,
      updatedAt = now\<rparr>"

fun replaceFirst :: "objectid \<Rightarrow> student \<Rightarrow> store \<Rightarrow> store" where
  "replaceFirst oid d' [] = []"
| "replaceFirst oid d' (d # ds) =
     (if ident d = oid then d' # ds else d # replaceFirst oid d' ds)"

fun removeFirst :: "objectid \<Rightarrow> store \<Rightarrow> store" where
  "removeFirst oid [] = []"
| "removeFirst oid (d # ds) = (if ident d = oid then ds else d # removeFirst oid ds)"

definition Student_findByIdAndUpdate ::
  "int \<Rightarrow> string \<Rightarrow> body \<Rightarrow> store \<Rightarrow> thrown + student option \<times> store" where
  "Student_findByIdAndUpdate now i b s =
     (case castObjectId i of
        None \<Rightarrow> Inl (CastError (castMessage ''ObjectId'' (quoted i) ''_id''))
      | Some oid \<Rightarrow>
     (case castUpdateError b of
        Some msg \<Rightarrow> Inl (CastError msg)
      | None \<Rightarrow>
     (case updateValidators now b of
        Inl msgs \<Rightarrow> Inl (ValidationError msgs)
      | Inr ch \<Rightarrow>
     (case find (\<lambda>d. ident d = oid) s of
        None \<Rightarrow> Inr (None, s)
      | Some d \<Rightarrow>
          (let d' = applyChanges now ch d
           in if ident d' \<noteq> ident d then Inl ImmutableField
              else if email d' \<noteq> email d \<and> email d' \<in> set (map email s)
              then Inl DuplicateKey
              else Inr (Some d', replaceFirst oid d' s))))))"

text \<open>\<open>Student.findByIdAndDelete(id)\<close>: removes the first document with the
  identifier and returns it, or returns \<open>null\<close>.\<close>

definition Student_findByIdAndDelete ::
  "string \<Rightarrow> store \<Rightarrow> thrown + student option \<times> store" where
  "Student_findByIdAndDelete i s =
     (case castObjectId i of
        None \<Rightarrow> Inl (CastError (castMessage ''ObjectId'' (quoted i) ''_id''))
      | Some oid \<Rightarrow>
          (case find (\<lambda>d. ident d = oid) s of
             None \<Rightarrow> Inr (None, s)
           | Some d \<Rightarrow> Inr (Some d, removeFirst oid s)))"

subsection \<open>Responses\<close>

text \<open>\<open>res.status(n).json({...})\<close>: the status and the keys of the envelope; a key
  the handler does not write is \<open>None\<close>.\<close>

datatype payload = Document student | Documents "student list" | EmptyObject

record response =
  status :: nat
  success :: bool
  message :: "string option"
  count_json :: "nat option"
  data :: "payload option"
  errors :: "string list option"
  error :: "string option"

definition serverError :: "thrown \<Rightarrow> response" where
  "serverError e =
     \<lparr>status = 500, success = False, message = Some ''Server Error'', count_json = None,
      data = None, errors = None, error = Some (err_message e)\<rparr>"

definition failure :: "nat \<Rightarrow> string \<Rightarrow> response" where
  "failure code msg =
     \<lparr>status = code, success = False, message = Some msg, count_json = None,
      data = None, errors = None, error = None\<rparr>"

definition validationFailure :: "string list \<Rightarrow> response" where
  "validationFailure messages =
     \<lparr>status = 400, success = False, message = Some ''Validation Error'', count_json = None,
      data = None, errors = Some messages, error = None\<rparr>"

definition listing :: "student list \<Rightarrow> response" where
  "listing students =
     \<lparr>status = 200, success = True, message = None, count_json = Some (length students),
      data = Some (Documents students), errors = None, error = None\<rparr>"

definition ok :: "nat \<Rightarrow> string option \<Rightarrow> payload \<Rightarrow> response" where
  "ok code msg d =
     \<lparr>status = code, success = True, message = msg, count_json = None,
      data = Some d, errors = None, error = None\<rparr>"

subsection \<open>The handlers (lines 68-245)\<close>

text \<open>Each handler is its \<open>try\<close> block on the value the model returns (\<open>Inr\<close>) and
  its \<open>catch\<close> block on the error the model throws (\<open>Inl\<close>), with the tests on
  \<open>error.code\<close> and \<open>error.name\<close> in the order of the source. The handlers that write
  return the collection after the call too.\<close>

definition getAllStudents :: "store \<Rightarrow> response" where
  "getAllStudents s =
     (case Student_find_sorted s of
        Inr students \<Rightarrow> listing students
      | Inl e \<Rightarrow> serverError e)"

definition getStudentById :: "string \<Rightarrow> store \<Rightarrow> response" where
  "getStudentById i s =
     (case Student_findById i s of
        Inr None \<Rightarrow> failure 404 ''Student not found''
      | Inr (Some student) \<Rightarrow> ok 200 None (Document student)
      | Inl e \<Rightarrow>
          (if err_name e = ''CastError'' then failure 400 ''Invalid student ID''
           else serverError e))"

definition createStudent :: "clock \<Rightarrow> objectid \<Rightarrow> body \<Rightarrow> store \<Rightarrow> response \<times> store" where
  "createStudent now oid b s =
     (case Student_create now oid b s of
        Inr (student, s') \<Rightarrow> (ok 201 (Some ''Student created successfully'') (Document student), s')
      | Inl e \<Rightarrow>
          (if err_code e = Some 11000 then (failure 400 ''Email already exists'', s)
           else if err_name e = ''ValidationError'' then (validationFailure (err_errors e), s)
           else (serverError e, s)))"

definition updateStudent :: "int \<Rightarrow> string \<Rightarrow> body \<Rightarrow> store \<Rightarrow> response \<times> store" where
  "updateStudent now i b s =
     (case Student_findByIdAndUpdate now i b s of
        Inr (None, s') \<Rightarrow> (failure 404 ''Student not found'', s')
      | Inr (Some student, s') \<Rightarrow>
          (ok 200 (Some ''Student updated successfully'') (Document student), s')
      | Inl e \<Rightarrow>
          (if err_name e = ''ValidationError'' then (validationFailure (err_errors e), s)
           else if err_name e = ''CastError'' then (failure 400 ''Invalid student ID'', s)
           else (serverError e, s)))"

definition deleteStudent :: "string \<Rightarrow> store \<Rightarrow> response \<times> store" where
  "deleteStudent i s =
     (case Student_findByIdAndDelete i s of
        Inr (None, s') \<Rightarrow> (failure 404 ''Student not found'', s')
      | Inr (Some student, s') \<Rightarrow>
          (ok 200 (Some ''Student deleted successfully'') EmptyObject, s')
      | Inl e \<Rightarrow>
          (if err_name e = ''CastError'' then (failure 400 ''Invalid student ID'', s)
           else (serverError e, s)))"

definition getStudentsByCourse :: "string \<Rightarrow> store \<Rightarrow> response" where
  "getStudentsByCourse c s =
     (case Student_find_course c s of
        Inr students \<Rightarrow> listing students
      | Inl e \<Rightarrow> serverError e)"

subsection \<open>The routes (lines 273-278)\<close>

text \<open>A request to one of the six routes, with what the handler reads from it and,
  for the two that write a time stamp, the clock; \<open>POST\<close> also carries the identifier
  generated for the document.\<close>

datatype request =
    GET_students
  | POST_students clock objectid body
  | GET_student string
  | PUT_student int string body
  | DELETE_student string
  | GET_course string

fun handle :: "request \<Rightarrow> store \<Rightarrow> response \<times> store" where
  "handle GET_students s = (getAllStudents s, s)"
| "handle (POST_students now oid b) s = createStudent now oid b s"
| "handle (GET_student i) s = (getStudentById i s, s)"
| "handle (PUT_student now i b) s = updateStudent now i b s"
| "handle (DELETE_student i) s = deleteStudent i s"
| "handle (GET_course c) s = (getStudentsByCourse c s, s)"

fun run :: "request list \<Rightarrow> store \<Rightarrow> store" where
  "run [] s = s"
| "run (r # rs) s = run rs (snd (handle r s))"

subsection \<open>Well-formed collections\<close>

text \<open>What the server's unique indexes and the schema maintain for a collection
  that is written through the service only.\<close>

definition validStudent :: "student \<Rightarrow> bool" where
  "validStudent d =
     (2 \<le> length (name d) \<and> length (name d) \<le> 50 \<and>
      16 \<le> age d \<and> age d \<le> 100 \<and>
      course d \<in> set courses \<and>
      toLowerCase (email d) = email d \<and> test emailPattern (email d) \<and>
      grade d \<in> set grades)"

definition wellFormed :: "store \<Rightarrow> bool" where
  "wellFormed s =
     (distinct (map ident s) \<and> distinct (map email s) \<and> list_all validStudent s)"

subsection \<open>Sample data\<close>

definition adaId :: string where
  "adaId = ''0102030405060708090a0b0c''"

definition ada :: student where
  "ada =
     \<lparr>ident = [1, 2, 3, 4, 5, 6, 7, 8, 9, 10, 11, 12], name = ''Ada Lovelace'', age = 20,
      course = ''Mathematics'', email = ''ada@example.com'', grade = ''A'',
      enrollmentDate = Some 1000, createdAt = 1000, updatedAt = 1000\<rparr>"

definition bobId :: objectid where
  "bobId = [0, 0, 0, 0, 0, 0, 0, 0, 0, 0, 0, 1]"

definition emptyBody :: body where
  "emptyBody =
     \<lparr>name_in = Absent, age_in = Absent, course_in = Absent, email_in = Absent,
      grade_in = Absent, enrollmentDate_in = Absent, id_in = Absent, createdAt_in = Absent,
      updatedAt_in = Absent\<rparr>"

definition bobBody :: body where
  "bobBody =
     \<lparr>name_in = Value '' Bob '', age_in = Value 20, course_in = Value ''Arts'',
      email_in = Value ''Bob@Example.com'', grade_in = Absent, enrollmentDate_in = Absent,
      id_in = Absent, createdAt_in = Absent, updatedAt_in = Absent\<rparr>"

definition atFive :: clock where
  "atFive = \<lparr>constructed = 4, saved = 5\<rparr>"

definition carolId :: objectid where
  "carolId = [0, 0, 0, 0, 0, 0, 0, 0, 0, 0, 0, 2]"

definition backdatedBody :: body where
  "backdatedBody = bobBody\<lparr>id_in := Value carolId, createdAt_in := Value 99\<rparr>"

definition backdated :: student where
  "backdated =
     \<lparr>ident = carolId, name = ''Bob'', age = 20, course = ''Arts'', email = ''bob@example.com'',
      grade = ''C'', enrollmentDate = Some 4, createdAt = 99, updatedAt = 99\<rparr>"

definition renamingBody :: body where
  "renamingBody = emptyBody\<lparr>course_in := Value ''Physics'', id_in := Value bobId\<rparr>"

definition bob :: student where
  "bob =
     \<lparr>ident = bobId, name = ''Bob'', age = 20, course = ''Arts'', email = ''bob@example.com'',
      grade = ''C'', enrollmentDate = Some 4, createdAt = 5, updatedAt = 5\<rparr>"

definition duplicateBody :: body where
  "duplicateBody = bobBody\<lparr>email_in := Value ''ADA@Example.com''\<rparr>"

definition tooYoungBody :: body where
  "tooYoungBody = duplicateBody\<lparr>age_in := Value 10\<rparr>"

definition badGradeBody :: body where
  "badGradeBody = bobBody\<lparr>grade_in := Value ''Z''\<rparr>"

definition brokenBody :: body where
  "brokenBody = emptyBody\<lparr>age_in := Value 10, grade_in := Value ''Z''\<rparr>"

definition astrologyBody :: body where
  "astrologyBody = emptyBody\<lparr>course_in := Value '' Astrology ''\<rparr>"

definition astrologyCastBody :: body where
  "astrologyCastBody = astrologyBody\<lparr>age_in := Uncastable ''abc''\<rparr>"

definition blankCourseBody :: body where
  "blankCourseBody = emptyBody\<lparr>course_in := Value '' ''\<rparr>"

definition physicsBody :: body where
  "physicsBody = emptyBody\<lparr>course_in := Value ''Physics''\<rparr>"

section \<open>Properties\<close>

subsection \<open>Strings and paths\<close>

lemma lowerChar_idem: "lowerChar (lowerChar c) = lowerChar c"
  by (auto simp: lowerChar_def Let_def)

lemma toLowerCase_idem: "toLowerCase (toLowerCase s) = toLowerCase s"
  by (simp add: toLowerCase_def lowerChar_idem)

lemma emailPattern_nonempty: "\<not> test emailPattern []"
  by (simp add: emailPattern_def words_def Plus_def Opt_def)

lemma name_path_Inr: "name_path x = Inr n \<Longrightarrow> 2 \<le> length n \<and> length n \<le> 50"
  by (cases x) (auto simp: name_path_def Let_def split: if_splits)

lemma age_path_Inr: "age_path x = Inr a \<Longrightarrow> 16 \<le> a \<and> a \<le> 100"
  by (cases x) (auto simp: age_path_def split: if_splits)

lemma course_path_Inr: "course_path x = Inr c \<Longrightarrow> c \<in> set courses"
  by (cases x) (auto simp: course_path_def Let_def split: if_splits)

lemma email_path_Inr: "email_path x = Inr e \<Longrightarrow> toLowerCase e = e \<and> test emailPattern e"
  by (cases x) (auto simp: email_path_def Let_def toLowerCase_idem split: if_splits)

lemma grade_path_Inr: "grade_path x = Inr g \<Longrightarrow> g \<in> set grades"
  by (cases x) (auto simp: grade_path_def grades_def split: if_splits)

lemma path_in_schemaPaths: "p \<in> set schemaPaths"
  by (cases p) (simp_all add: schemaPaths_def)

lemma set_map_filter: "set (List.map_filter f xs) = {y. \<exists>x\<in>set xs. f x = Some y}"
  by (induction xs) (auto simp: List.map_filter_simps split: option.splits)

lemma length_map_filter:
  "length (List.map_filter f xs) = length (filter (\<lambda>x. f x \<noteq> None) xs)"
  by (simp add: List.map_filter_def)

subsection \<open>Validation of a new document\<close>

lemma validationErrors_Nil:
  "validationErrors now b = [] \<longleftrightarrow> (\<forall>p. pathError now b p = None)"
proof
  assume empty: "validationErrors now b = []"
  have "pathError now b p = None" for p
  proof (cases "pathError now b p")
    case None
    then show ?thesis .
  next
    case (Some m)
    then have "m \<in> set (validationErrors now b)"
      using path_in_schemaPaths by (auto simp: validationErrors_def set_map_filter)
    with empty show ?thesis by simp
  qed
  then show "\<forall>p. pathError now b p = None" by blast
next
  assume "\<forall>p. pathError now b p = None"
  then show "validationErrors now b = []"
    by (simp add: validationErrors_def List.map_filter_def)
qed

lemma newStudent_Inl:
  "pathError now b p = Some m \<Longrightarrow> newStudent now oid b = Inl (validationErrors now b)"
  by (cases p) (auto simp: newStudent_def messageOf_def split: sum.splits)

lemma newStudent_Inr:
  assumes "\<forall>p. pathError now b p = None"
  shows "\<exists>n a c e g d i cr.
           name_path (name_in b) = Inr n \<and> age_path (age_in b) = Inr a \<and>
           course_path (course_in b) = Inr c \<and> email_path (email_in b) = Inr e \<and>
           grade_path (grade_in b) = Inr g \<and>
           enrollmentDate_path (constructed now) (enrollmentDate_in b) = Inr d \<and>
           id_path (id_in b) = Inr i \<and> createdAt_path (createdAt_in b) = Inr cr \<and>
           newStudent now oid b =
             Inr \<lparr>ident = orElse i oid, name = n, age = a, course = c, email = e, grade = g,
                  enrollmentDate = d, createdAt = orElse cr (saved now),
                  updatedAt = orElse cr (saved now)\<rparr>"
proof -
  have "pathError now b Name = None" "pathError now b Age = None"
    "pathError now b Course = None" "pathError now b Email = None"
    "pathError now b Grade = None" "pathError now b EnrollmentDate = None"
    "pathError now b Id = None" "pathError now b CreatedAt = None"
    "pathError now b UpdatedAt = None"
    using assms by blast+
  then obtain n a c e g d i cr up where
    p: "name_path (name_in b) = Inr n" "age_path (age_in b) = Inr a"
      "course_path (course_in b) = Inr c" "email_path (email_in b) = Inr e"
      "grade_path (grade_in b) = Inr g"
      "enrollmentDate_path (constructed now) (enrollmentDate_in b) = Inr d"
      "id_path (id_in b) = Inr i" "createdAt_path (createdAt_in b) = Inr cr"
      "updatedAt_path (updatedAt_in b) = Inr up"
    by (auto simp: messageOf_def split: sum.splits)
  then show ?thesis by (simp add: newStudent_def)
qed

lemma newStudent_paths:
  assumes "newStudent now oid b = Inr d"
  shows "name_path (name_in b) = Inr (name d) \<and> age_path (age_in b) = Inr (age d) \<and>
         course_path (course_in b) = Inr (course d) \<and> email_path (email_in b) = Inr (email d) \<and>
         grade_path (grade_in b) = Inr (grade d)"
proof -
  obtain n where n: "name_path (name_in b) = Inr n"
    using assms by (cases "name_path (name_in b)") (simp_all add: newStudent_def)
  obtain a where a: "age_path (age_in b) = Inr a"
    using assms n by (cases "age_path (age_in b)") (simp_all add: newStudent_def)
  obtain c where c: "course_path (course_in b) = Inr c"
    using assms n a by (cases "course_path (course_in b)") (simp_all add: newStudent_def)
  obtain e where e: "email_path (email_in b) = Inr e"
    using assms n a c by (cases "email_path (email_in b)") (simp_all add: newStudent_def)
  obtain g where g: "grade_path (grade_in b) = Inr g"
    using assms n a c e by (cases "grade_path (grade_in b)") (simp_all add: newStudent_def)
  have "name d = n \<and> age d = a \<and> course d = c \<and> email d = e \<and> grade d = g"
    using assms n a c e g by (auto simp: newStudent_def split: sum.splits)
  then show ?thesis using n a c e g by simp
qed

lemma newStudent_valid: "newStudent now oid b = Inr d \<Longrightarrow> validStudent d"
  using newStudent_paths [of now oid b d]
    name_path_Inr [of "name_in b" "name d"] age_path_Inr [of "age_in b" "age d"]
    course_path_Inr [of "course_in b" "course d"] email_path_Inr [of "email_in b" "email d"]
    grade_path_Inr [of "grade_in b" "grade d"]
  by (simp add: validStudent_def)

subsection \<open>Looking up, replacing and removing by identifier\<close>

lemma find_ident:
  "distinct (map ident s) \<Longrightarrow> d \<in> set s \<Longrightarrow> find (\<lambda>x. ident x = ident d) s = Some d"
  by (induction s) (auto simp: image_iff)

lemma find_ident_none:
  "oid \<notin> set (map ident s) \<Longrightarrow> find (\<lambda>x. ident x = oid) s = None"
  by (induction s) auto

lemma find_ident_Some:
  "find (\<lambda>x. ident x = oid) s = Some d \<Longrightarrow> ident d = oid \<and> d \<in> set s"
  by (induction s) (auto split: if_splits)

lemma ident_removeFirst: "map ident (removeFirst oid s) = remove1 oid (map ident s)"
  by (induction s) auto

lemma set_removeFirst: "set (removeFirst oid s) \<subseteq> set s"
  by (induction s) auto

lemma removeFirst_keeps: "d \<in> set s \<Longrightarrow> ident d \<noteq> oid \<Longrightarrow> d \<in> set (removeFirst oid s)"
  by (induction s) auto

lemma distinct_removeFirst: "distinct (map f s) \<Longrightarrow> distinct (map f (removeFirst oid s))"
proof (induction s)
  case Nil
  then show ?case by simp
next
  case (Cons d ds)
  then show ?case using set_removeFirst [of oid ds] by auto
qed

lemma ident_replaceFirst:
  "ident d' = oid \<Longrightarrow> map ident (replaceFirst oid d' s) = map ident s"
  by (induction s) auto

lemma set_replaceFirst: "set (replaceFirst oid d' s) \<subseteq> insert d' (set s)"
  by (induction s) auto

lemma replaceFirst_mem:
  "find (\<lambda>x. ident x = oid) s = Some d0 \<Longrightarrow> d' \<in> set (replaceFirst oid d' s)"
  by (induction s) (auto split: if_splits)

lemma replaceFirst_keeps:
  "find (\<lambda>x. ident x = oid) s = Some d0 \<Longrightarrow> ident d' = oid \<Longrightarrow>
   createdAt d' = createdAt d0 \<Longrightarrow> d \<in> set s \<Longrightarrow>
   \<exists>x\<in>set (replaceFirst oid d' s). ident x = ident d \<and> createdAt x = createdAt d"
  by (induction s) (auto split: if_splits)

lemma email_replaceFirst:
  assumes "find (\<lambda>x. ident x = oid) s = Some d0" and "distinct (map email s)"
    and "email d' = email d0 \<or> email d' \<notin> set (map email s)"
  shows "distinct (map email (replaceFirst oid d' s))"
  using assms
proof (induction s)
  case Nil
  then show ?case by simp
next
  case (Cons a s)
  show ?case
  proof (cases "ident a = oid")
    case True
    then have "a = d0" using Cons.prems(1) by simp
    then have "email d' \<notin> set (map email s)" using Cons.prems(2,3) by auto
    then show ?thesis using True Cons.prems(2) by simp
  next
    case False
    then have f: "find (\<lambda>x. ident x = oid) s = Some d0" using Cons.prems(1) by simp
    then have d0: "d0 \<in> set s" using find_ident_Some by blast
    have "email d' = email d0 \<or> email d' \<notin> set (map email s)" using Cons.prems(3) by auto
    then have ih: "distinct (map email (replaceFirst oid d' s))"
      using Cons.IH f Cons.prems(2) by simp
    have "email a \<notin> set (map email s)" using Cons.prems(2) by simp
    moreover have "email a \<noteq> email d'" using Cons.prems(2,3) d0 by auto
    ultimately have "email a \<notin> set (map email (replaceFirst oid d' s))"
      using set_replaceFirst [of oid d' s] by auto
    then show ?thesis using False ih by simp
  qed
qed

subsection \<open>Updates\<close>

lemma update_path_Some: "update_path f x = Inr (Some v) \<Longrightarrow> f x = Inr v"
  by (cases x) (auto simp: update_path_def split: sum.splits)

lemma orElse_update:
  assumes "update_path f x = Inr u" and "\<And>v. f x = Inr v \<Longrightarrow> P v" and "P old"
  shows "P (orElse u old)"
proof (cases u)
  case None
  then show ?thesis using assms(3) by (simp add: orElse_def)
next
  case (Some v)
  then have "update_path f x = Inr (Some v)" using assms(1) by simp
  then have "f x = Inr v" by (rule update_path_Some)
  then have "P v" by (rule assms(2))
  then show ?thesis using Some by (simp add: orElse_def)
qed

lemma castUpdateError_None: "castUpdateError b = None \<longleftrightarrow> \<not> castFails b"
  by (auto simp: castUpdateError_def castFails_def isUncastable_def split: input.splits)

lemma updateValidators_Inl:
  "updatePathError now b p = Some m \<Longrightarrow> updateValidators now b = Inl (updateErrors now b)"
  by (cases p) (auto simp: updateValidators_def messageOf_def split: sum.splits)

lemma updateValidators_Inr:
  assumes "updateValidators now b = Inr ch"
  shows "update_path name_path (name_in b) = Inr (set_name ch) \<and>
    update_path age_path (age_in b) = Inr (set_age ch) \<and>
    update_path course_path (course_in b) = Inr (set_course ch) \<and>
    update_path email_path (email_in b) = Inr (set_email ch) \<and>
    update_path grade_path (grade_in b) = Inr (set_grade ch) \<and>
    update_path (enrollmentDate_path now) (enrollmentDate_in b) = Inr (set_enrollmentDate ch) \<and>
    set_id ch = idChange (id_in b)"
proof -
  obtain n where n: "update_path name_path (name_in b) = Inr n"
    using assms by (cases "update_path name_path (name_in b)") (simp_all add: updateValidators_def)
  obtain a where a: "update_path age_path (age_in b) = Inr a"
    using assms n
    by (cases "update_path age_path (age_in b)") (simp_all add: updateValidators_def)
  obtain c where c: "update_path course_path (course_in b) = Inr c"
    using assms n a
    by (cases "update_path course_path (course_in b)") (simp_all add: updateValidators_def)
  obtain e where e: "update_path email_path (email_in b) = Inr e"
    using assms n a c
    by (cases "update_path email_path (email_in b)") (simp_all add: updateValidators_def)
  obtain g where g: "update_path grade_path (grade_in b) = Inr g"
    using assms n a c e
    by (cases "update_path grade_path (grade_in b)") (simp_all add: updateValidators_def)
  obtain t where t: "update_path (enrollmentDate_path now) (enrollmentDate_in b) = Inr t"
    using assms n a c e g
    by (cases "update_path (enrollmentDate_path now) (enrollmentDate_in b)")
      (simp_all add: updateValidators_def)
  have "ch = \<lparr>set_name = n, set_age = a, set_course = c, set_email = e, set_grade = g,
               set_enrollmentDate = t, set_id = idChange (id_in b)\<rparr>"
    using assms by (simp add: updateValidators_def n a c e g t)
  then show ?thesis by (simp add: n a c e g t)
qed

lemma updateValidators_valid:
  assumes "updateValidators now b = Inr ch" and "validStudent d"
  shows "validStudent (applyChanges now ch d)"
proof -
  from updateValidators_Inr [OF assms(1)] have
    n: "update_path name_path (name_in b) = Inr (set_name ch)" and
    a: "update_path age_path (age_in b) = Inr (set_age ch)" and
    c: "update_path course_path (course_in b) = Inr (set_course ch)" and
    e: "update_path email_path (email_in b) = Inr (set_email ch)" and
    g: "update_path grade_path (grade_in b) = Inr (set_grade ch)"
    by simp_all
  have v: "2 \<le> length (name d)" "length (name d) \<le> 50" "16 \<le> age d" "age d \<le> 100"
    "course d \<in> set courses" "toLowerCase (email d) = email d" "test emailPattern (email d)"
    "grade d \<in> set grades"
    using assms(2) by (simp_all add: validStudent_def)
  have "2 \<le> length (orElse (set_name ch) (name d)) \<and> length (orElse (set_name ch) (name d)) \<le> 50"
  proof (rule orElse_update [OF n])
    show "2 \<le> length v \<and> length v \<le> 50" if "name_path (name_in b) = Inr v" for v
      using that by (rule name_path_Inr)
    show "2 \<le> length (name d) \<and> length (name d) \<le> 50" using v by simp
  qed
  moreover have "16 \<le> orElse (set_age ch) (age d) \<and> orElse (set_age ch) (age d) \<le> 100"
  proof (rule orElse_update [OF a])
    show "16 \<le> v \<and> v \<le> 100" if "age_path (age_in b) = Inr v" for v
      using that by (rule age_path_Inr)
    show "16 \<le> age d \<and> age d \<le> 100" using v by simp
  qed
  moreover have "orElse (set_course ch) (course d) \<in> set courses"
  proof (rule orElse_update [OF c])
    show "v \<in> set courses" if "course_path (course_in b) = Inr v" for v
      using that by (rule course_path_Inr)
    show "course d \<in> set courses" using v by simp
  qed
  moreover have "toLowerCase (orElse (set_email ch) (email d)) = orElse (set_email ch) (email d) \<and>
      test emailPattern (orElse (set_email ch) (email d))"
  proof (rule orElse_update [OF e])
    show "toLowerCase v = v \<and> test emailPattern v" if "email_path (email_in b) = Inr v" for v
      using that by (rule email_path_Inr)
    show "toLowerCase (email d) = email d \<and> test emailPattern (email d)" using v by simp
  qed
  moreover have "orElse (set_grade ch) (grade d) \<in> set grades"
  proof (rule orElse_update [OF g])
    show "v \<in> set grades" if "grade_path (grade_in b) = Inr v" for v
      using that by (rule grade_path_Inr)
    show "grade d \<in> set grades" using v by simp
  qed
  ultimately show ?thesis by (simp add: validStudent_def applyChanges_def)
qed

text \<open>What \<open>PUT\<close> can do to the collection: nothing, or replace the first document
  with the identifier by its changed copy.\<close>

lemma updateStudent_result:
  "(status (fst (updateStudent now i b s)) \<noteq> 200 \<and> snd (updateStudent now i b s) = s) \<or>
   (\<exists>oid ch d.
      castObjectId i = Some oid \<and> updateValidators now b = Inr ch \<and>
      find (\<lambda>x. ident x = oid) s = Some d \<and>
      ident (applyChanges now ch d) = ident d \<and>
      \<not> (email (applyChanges now ch d) \<noteq> email d \<and>
         email (applyChanges now ch d) \<in> set (map email s)) \<and>
      updateStudent now i b s =
        (ok 200 (Some ''Student updated successfully'') (Document (applyChanges now ch d)),
         replaceFirst oid (applyChanges now ch d) s))"
proof (cases "castObjectId i")
  case None
  then show ?thesis
    by (simp add: updateStudent_def Student_findByIdAndUpdate_def CastError_def failure_def
        validationFailure_def)
next
  case (Some oid)
  note oid = this
  show ?thesis
  proof (cases "castUpdateError b")
    case (Some m)
    then show ?thesis using oid
      by (simp add: updateStudent_def Student_findByIdAndUpdate_def CastError_def failure_def
          validationFailure_def)
  next
    case None
    note cast = this
    show ?thesis
    proof (cases "updateValidators now b")
      case (Inl msgs)
      then show ?thesis using oid cast
        by (simp add: updateStudent_def Student_findByIdAndUpdate_def ValidationError_def
            validationFailure_def)
    next
      case (Inr ch)
      note ch = this
      show ?thesis
      proof (cases "find (\<lambda>x. ident x = oid) s")
        case None
        then show ?thesis using oid cast ch
          by (simp add: updateStudent_def Student_findByIdAndUpdate_def failure_def)
      next
        case (Some d)
        note d = this
        show ?thesis
        proof (cases "ident (applyChanges now ch d) = ident d")
          case False
          then show ?thesis using oid cast ch d
            by (simp add: updateStudent_def Student_findByIdAndUpdate_def ImmutableField_def
                serverError_def Let_def)
        next
          case True
          note same = this
          show ?thesis
          proof (cases "email (applyChanges now ch d) \<noteq> email d \<and>
              email (applyChanges now ch d) \<in> set (map email s)")
            case True
            then show ?thesis using oid cast ch d same
              by (simp add: updateStudent_def Student_findByIdAndUpdate_def DuplicateKey_def
                  serverError_def Let_def)
          next
            case False
            then have "updateStudent now i b s =
              (ok 200 (Some ''Student updated successfully'')
                 (Document (applyChanges now ch d)),
               replaceFirst oid (applyChanges now ch d) s)"
              using oid cast ch d same
              by (auto simp: updateStudent_def Student_findByIdAndUpdate_def Let_def)
            then show ?thesis using oid ch d same False by blast
          qed
        qed
      qed
    qed
  qed
qed

subsection \<open>Well-formed collections stay well-formed\<close>

lemma wellFormed_removeFirst: "wellFormed s \<Longrightarrow> wellFormed (removeFirst oid s)"
  using set_removeFirst [of oid s]
  by (auto simp: wellFormed_def distinct_removeFirst list_all_iff)

lemma wellFormed_create:
  assumes "wellFormed s"
  shows "wellFormed (snd (createStudent now oid b s))"
proof (cases "Student_create now oid b s")
  case (Inl e)
  then show ?thesis using assms by (simp add: createStudent_def)
next
  case (Inr r)
  then obtain d where new: "newStudent now oid b = Inr d" and r: "r = (d, s @ [d])"
    and fresh: "ident d \<notin> set (map ident s)" "email d \<notin> set (map email s)"
    by (auto simp: Student_create_def split: sum.splits if_splits)
  have "validStudent d" using new by (rule newStudent_valid)
  then have "wellFormed (s @ [d])" using assms fresh by (simp add: wellFormed_def)
  then show ?thesis using Inr r by (simp add: createStudent_def)
qed

lemma wellFormed_update:
  assumes "wellFormed s"
  shows "wellFormed (snd (updateStudent now i b s))"
  using updateStudent_result [of now i b s]
proof
  assume "status (fst (updateStudent now i b s)) \<noteq> 200 \<and> snd (updateStudent now i b s) = s"
  then show ?thesis using assms by simp
next
  assume "\<exists>oid ch d.
      castObjectId i = Some oid \<and> updateValidators now b = Inr ch \<and>
      find (\<lambda>x. ident x = oid) s = Some d \<and>
      ident (applyChanges now ch d) = ident d \<and>
      \<not> (email (applyChanges now ch d) \<noteq> email d \<and>
         email (applyChanges now ch d) \<in> set (map email s)) \<and>
      updateStudent now i b s =
        (ok 200 (Some ''Student updated successfully'') (Document (applyChanges now ch d)),
         replaceFirst oid (applyChanges now ch d) s)"
  then obtain oid ch d where v: "updateValidators now b = Inr ch"
    and f: "find (\<lambda>x. ident x = oid) s = Some d"
    and same: "ident (applyChanges now ch d) = ident d"
    and e: "\<not> (email (applyChanges now ch d) \<noteq> email d \<and>
         email (applyChanges now ch d) \<in> set (map email s))"
    and st: "snd (updateStudent now i b s) = replaceFirst oid (applyChanges now ch d) s"
    by auto
  let ?d = "applyChanges now ch d"
  have d: "ident d = oid" "d \<in> set s" using find_ident_Some [OF f] by simp_all
  then have "validStudent d" using assms by (auto simp: wellFormed_def list_all_iff)
  then have "validStudent ?d" using v by (simp add: updateValidators_valid)
  then have "list_all validStudent (replaceFirst oid ?d s)"
    using assms set_replaceFirst [of oid ?d s] by (auto simp: wellFormed_def list_all_iff)
  moreover have "distinct (map ident (replaceFirst oid ?d s))"
    using assms d same by (simp add: ident_replaceFirst wellFormed_def)
  moreover have "distinct (map email (replaceFirst oid ?d s))"
    using email_replaceFirst [OF f, of ?d] assms e by (auto simp: wellFormed_def)
  ultimately show ?thesis using st by (simp add: wellFormed_def)
qed

lemma deleteStudent_store:
  "snd (deleteStudent i s) = s \<or>
   (\<exists>oid. castObjectId i = Some oid \<and> snd (deleteStudent i s) = removeFirst oid s)"
  by (auto simp: deleteStudent_def Student_findByIdAndDelete_def split: option.splits)

lemma createStudent_store:
  "snd (createStudent now oid b s) = s \<or> (\<exists>d. snd (createStudent now oid b s) = s @ [d])"
  by (auto simp: createStudent_def Student_create_def split: sum.splits)

lemma wellFormed_delete: "wellFormed s \<Longrightarrow> wellFormed (snd (deleteStudent i s))"
  using deleteStudent_store [of i s] by (auto simp: wellFormed_removeFirst)

lemma wellFormed_handle: "wellFormed s \<Longrightarrow> wellFormed (snd (handle r s))"
  by (cases r) (simp_all add: wellFormed_create wellFormed_update wellFormed_delete)

lemma wellFormed_run: "wellFormed s \<Longrightarrow> wellFormed (run rs s)"
  by (induction rs arbitrary: s) (simp_all add: wellFormed_handle)

subsection \<open>Every request keeps the documents it does not delete\<close>

lemma handle_keeps:
  assumes "d \<in> set s"
  shows "(\<exists>i. r = DELETE_student i \<and> castObjectId i = Some (ident d)) \<or>
         (\<exists>x\<in>set (snd (handle r s)). ident x = ident d \<and> createdAt x = createdAt d)"
proof (cases r)
  case GET_students
  then show ?thesis using assms by auto
next
  case (POST_students now oid b)
  then show ?thesis using assms createStudent_store [of now oid b s] by auto
next
  case (GET_student i)
  then show ?thesis using assms by auto
next
  case (PUT_student now i b)
  from updateStudent_result [of now i b s] show ?thesis
  proof
    assume "status (fst (updateStudent now i b s)) \<noteq> 200 \<and> snd (updateStudent now i b s) = s"
    then show ?thesis using PUT_student assms by auto
  next
    assume "\<exists>oid ch d.
      castObjectId i = Some oid \<and> updateValidators now b = Inr ch \<and>
      find (\<lambda>x. ident x = oid) s = Some d \<and>
      ident (applyChanges now ch d) = ident d \<and>
      \<not> (email (applyChanges now ch d) \<noteq> email d \<and>
         email (applyChanges now ch d) \<in> set (map email s)) \<and>
      updateStudent now i b s =
        (ok 200 (Some ''Student updated successfully'') (Document (applyChanges now ch d)),
         replaceFirst oid (applyChanges now ch d) s)"
    then obtain oid ch d0 where f: "find (\<lambda>x. ident x = oid) s = Some d0"
      and same: "ident (applyChanges now ch d0) = ident d0"
      and st: "snd (updateStudent now i b s) = replaceFirst oid (applyChanges now ch d0) s"
      by auto
    have "ident (applyChanges now ch d0) = oid"
      "createdAt (applyChanges now ch d0) = createdAt d0"
      using find_ident_Some [OF f] same by (simp_all add: applyChanges_def)
    from replaceFirst_keeps [OF f this assms] show ?thesis
      using PUT_student st by simp
  qed
next
  case (DELETE_student i)
  from deleteStudent_store [of i s] show ?thesis
  proof
    assume "snd (deleteStudent i s) = s"
    then show ?thesis using DELETE_student assms by auto
  next
    assume "\<exists>oid. castObjectId i = Some oid \<and> snd (deleteStudent i s) = removeFirst oid s"
    then obtain oid where c: "castObjectId i = Some oid"
      and st: "snd (deleteStudent i s) = removeFirst oid s" by blast
    show ?thesis
    proof (cases "ident d = oid")
      case True
      then show ?thesis using DELETE_student c by simp
    next
      case False
      then have "d \<in> set (removeFirst oid s)" using assms by (simp add: removeFirst_keeps)
      then show ?thesis using DELETE_student st by auto
    qed
  qed
next
  case (GET_course c)
  then show ?thesis using assms by auto
qed

lemma run_keeps:
  "d \<in> set s \<Longrightarrow>
   (\<exists>i. DELETE_student i \<in> set rs \<and> castObjectId i = Some (ident d)) \<or>
   (\<exists>x\<in>set (run rs s). ident x = ident d \<and> createdAt x = createdAt d)"
proof (induction rs arbitrary: s d)
  case Nil
  then show ?case by auto
next
  case (Cons r rs)
  from handle_keeps [OF Cons.prems, of r] show ?case
  proof
    assume "\<exists>i. r = DELETE_student i \<and> castObjectId i = Some (ident d)"
    then show ?thesis by auto
  next
    assume "\<exists>x\<in>set (snd (handle r s)). ident x = ident d \<and> createdAt x = createdAt d"
    then obtain x where x: "x \<in> set (snd (handle r s))" "ident x = ident d"
      "createdAt x = createdAt d" by blast
    from Cons.IH [OF x(1)] show ?thesis using x(2,3) by auto
  qed
qed

subsection \<open>Validation of an update\<close>

lemma updateErrors_Nil:
  "updateErrors now b = [] \<longleftrightarrow> (\<forall>p. updatePathError now b p = None)"
proof
  assume empty: "updateErrors now b = []"
  have "updatePathError now b p = None" for p
  proof (cases "updatePathError now b p")
    case None
    then show ?thesis .
  next
    case (Some m)
    then have "m \<in> set (updateErrors now b)"
      using path_in_schemaPaths by (auto simp: updateErrors_def set_map_filter)
    with empty show ?thesis by simp
  qed
  then show "\<forall>p. updatePathError now b p = None" by blast
next
  assume "\<forall>p. updatePathError now b p = None"
  then show "updateErrors now b = []"
    by (simp add: updateErrors_def List.map_filter_def)
qed

lemma updateValidators_total:
  assumes "\<forall>p. updatePathError now b p = None"
  shows "\<exists>ch. updateValidators now b = Inr ch"
proof -
  have "updatePathError now b Name = None" "updatePathError now b Age = None"
    "updatePathError now b Course = None" "updatePathError now b Email = None"
    "updatePathError now b Grade = None" "updatePathError now b EnrollmentDate = None"
    using assms by blast+
  then obtain n a c e g d where
    "update_path name_path (name_in b) = Inr n" "update_path age_path (age_in b) = Inr a"
    "update_path course_path (course_in b) = Inr c"
    "update_path email_path (email_in b) = Inr e"
    "update_path grade_path (grade_in b) = Inr g"
    "update_path (enrollmentDate_path now) (enrollmentDate_in b) = Inr d"
    by (auto simp: messageOf_def split: sum.splits)
  then show ?thesis by (simp add: updateValidators_def)
qed

section \<open>The claims\<close>

text \<open>
  C1. A create request whose required fields \<open>name\<close>, \<open>age\<close>, \<open>course\<close> and \<open>email\<close>
  satisfy their constraints, whose other keys, when supplied, are valid (\<open>grade\<close> one
  of the five letters, \<open>enrollmentDate\<close>, \<open>createdAt\<close> and \<open>updatedAt\<close> dates,
  \<open>_id\<close> a well-formed identifier), whose lower-cased email is not stored and whose
  identifier is not in the collection, returns 201 with a record whose \<open>id\<close>,
  \<open>createdAt\<close> and \<open>updatedAt\<close> are populated: the identifier is the generated one
  unless the body brings its own, \<open>createdAt\<close> is the time of the save unless the
  body brings its own, and \<open>updatedAt\<close> equals \<open>createdAt\<close>. The record holds the
  normalised fields, and grade \<open>C\<close> when the body omits \<open>grade\<close>.
\<close>

theorem createStudent_valid:
  assumes "name_in b = Value n" and "2 \<le> length (trim n)" and "length (trim n) \<le> 50"
    and "age_in b = Value a" and "16 \<le> a" and "a \<le> 100"
    and "course_in b = Value c" and "trim c \<in> set courses"
    and "email_in b = Value e" and "test emailPattern (toLowerCase e)"
    and "grade_in b = Absent \<or> (\<exists>g. grade_in b = Value g \<and> g \<in> set grades)"
    and "\<not> isUncastable (enrollmentDate_in b)"
    and "\<not> isUncastable (createdAt_in b)" and "\<not> isUncastable (updatedAt_in b)"
    and "id_in b = Absent \<or> (\<exists>x. id_in b = Value x)"
    and "toLowerCase e \<notin> set (map email s)"
    and "id_in b = Absent \<longrightarrow> oid \<notin> set (map ident s)"
    and "\<forall>x. id_in b = Value x \<longrightarrow> x \<notin> set (map ident s)"
  shows "\<exists>d. createStudent now oid b s =
               (ok 201 (Some ''Student created successfully'') (Document d), s @ [d]) \<and>
             status (fst (createStudent now oid b s)) = 201 \<and>
             (id_in b = Absent \<longrightarrow> ident d = oid) \<and>
             (\<forall>x. id_in b = Value x \<longrightarrow> ident d = x) \<and>
             (createdAt_in b = Absent \<or> createdAt_in b = Null \<longrightarrow> createdAt d = saved now) \<and>
             (\<forall>t. createdAt_in b = Value t \<longrightarrow> createdAt d = t) \<and>
             updatedAt d = createdAt d \<and>
             name d = trim n \<and> age d = a \<and> course d = trim c \<and> email d = toLowerCase e \<and>
             (grade_in b = Absent \<longrightarrow> grade d = ''C'') \<and>
             (\<forall>g. grade_in b = Value g \<longrightarrow> grade d = g)"
proof -
  have n: "name_path (name_in b) = Inr (trim n)"
    using assms(1-3) by (auto simp: name_path_def Let_def)
  have a: "age_path (age_in b) = Inr a"
    using assms(4-6) by (simp add: age_path_def)
  have "trim c \<noteq> []" using assms(8) by (auto simp: courses_def)
  then have c: "course_path (course_in b) = Inr (trim c)"
    using assms(7,8) by (simp add: course_path_def Let_def)
  have "toLowerCase e \<noteq> []" using assms(10) emailPattern_nonempty by auto
  then have e: "email_path (email_in b) = Inr (toLowerCase e)"
    using assms(9,10) by (simp add: email_path_def Let_def)
  obtain g where g: "grade_path (grade_in b) = Inr g"
    and g1: "grade_in b = Absent \<longrightarrow> g = ''C''" and g2: "\<forall>v. grade_in b = Value v \<longrightarrow> g = v"
    using assms(11) by (auto simp: grade_path_def)
  obtain t where t: "enrollmentDate_path (constructed now) (enrollmentDate_in b) = Inr t"
    using assms(12)
    by (cases "enrollmentDate_in b") (auto simp: enrollmentDate_path_def isUncastable_def)
  obtain cr where cr: "createdAt_path (createdAt_in b) = Inr cr"
    and cr1: "createdAt_in b = Absent \<or> createdAt_in b = Null \<longrightarrow> cr = None"
    and cr2: "\<forall>v. createdAt_in b = Value v \<longrightarrow> cr = Some v"
    using assms(13)
    by (cases "createdAt_in b") (auto simp: createdAt_path_def isUncastable_def)
  obtain up where up: "updatedAt_path (updatedAt_in b) = Inr up"
    using assms(14)
    by (cases "updatedAt_in b") (auto simp: updatedAt_path_def isUncastable_def)
  have i: "id_path (id_in b) = Inr (idChange (id_in b))"
    and i1: "id_in b = Absent \<longrightarrow> idChange (id_in b) = None"
    and i2: "\<forall>x. id_in b = Value x \<longrightarrow> idChange (id_in b) = Some x"
    using assms(15) by (auto simp: id_path_def idChange_def)
  let ?d = "\<lparr>ident = orElse (idChange (id_in b)) oid, name = trim n, age = a, course = trim c,
              email = toLowerCase e, grade = g, enrollmentDate = t,
              createdAt = orElse cr (saved now), updatedAt = orElse cr (saved now)\<rparr>"
  have fresh: "orElse (idChange (id_in b)) oid \<notin> set (map ident s)"
    using assms(15,17,18) by (auto simp: idChange_def orElse_def)
  have "newStudent now oid b = Inr ?d"
    by (simp add: newStudent_def n a c e g t cr up i)
  then have r: "createStudent now oid b s =
      (ok 201 (Some ''Student created successfully'') (Document ?d), s @ [?d])"
    using assms(16) fresh by (simp add: createStudent_def Student_create_def)
  have "(id_in b = Absent \<longrightarrow> ident ?d = oid) \<and> (\<forall>x. id_in b = Value x \<longrightarrow> ident ?d = x)"
    using i1 i2 by (simp add: orElse_def)
  moreover have "(createdAt_in b = Absent \<or> createdAt_in b = Null \<longrightarrow> createdAt ?d = saved now) \<and>
      (\<forall>v. createdAt_in b = Value v \<longrightarrow> createdAt ?d = v)"
    using cr1 cr2 by (simp add: orElse_def)
  moreover have "(grade_in b = Absent \<longrightarrow> grade ?d = ''C'') \<and>
      (\<forall>v. grade_in b = Value v \<longrightarrow> grade ?d = v)"
    using g1 g2 by simp
  ultimately show ?thesis using r
    by (intro exI [of _ ?d]) (simp add: ok_def)
qed

theorem createStudent_valid_witness:
  "name_in bobBody = Value '' Bob '' \<and> grade_in bobBody = Absent \<and>
   id_in bobBody = Absent \<and> createdAt_in bobBody = Absent \<and>
   test emailPattern (toLowerCase ''Bob@Example.com'') \<and>
   toLowerCase ''Bob@Example.com'' \<notin> set (map email [ada]) \<and>
   (\<exists>d. createStudent atFive bobId bobBody [ada] =
          (ok 201 (Some ''Student created successfully'') (Document d), [ada] @ [d]) \<and>
        ident d = bobId \<and> createdAt d = 5 \<and> updatedAt d = 5 \<and> name d = ''Bob'' \<and>
        email d = ''bob@example.com'' \<and> grade d = ''C'')"
proof -
  have h1: "name_in bobBody = Value '' Bob ''" and h4: "age_in bobBody = Value 20"
    and h7: "course_in bobBody = Value ''Arts''"
    and h9: "email_in bobBody = Value ''Bob@Example.com''"
    and g: "grade_in bobBody = Absent"
    and h12: "\<not> isUncastable (enrollmentDate_in bobBody)"
    and h13: "\<not> isUncastable (createdAt_in bobBody)"
    and h14: "\<not> isUncastable (updatedAt_in bobBody)"
    and i: "id_in bobBody = Absent" and cr: "createdAt_in bobBody = Absent"
    by (simp_all add: bobBody_def isUncastable_def)
  have h2: "2 \<le> length (trim '' Bob '')" and h3: "length (trim '' Bob '') \<le> 50"
    and tn: "trim '' Bob '' = ''Bob''"
    by code_simp+
  have h5: "(16::rat) \<le> 20" and h6: "(20::rat) \<le> 100" by simp_all
  have h8: "trim ''Arts'' \<in> set courses" by code_simp
  have h10: "test emailPattern (toLowerCase ''Bob@Example.com'')" by code_simp
  have te: "toLowerCase ''Bob@Example.com'' = ''bob@example.com''" by code_simp
  have h16: "toLowerCase ''Bob@Example.com'' \<notin> set (map email [ada])" by code_simp
  have "bobId \<notin> set (map ident [ada])" by code_simp
  then have h17: "id_in bobBody = Absent \<longrightarrow> bobId \<notin> set (map ident [ada])" by simp
  have h18: "\<forall>x. id_in bobBody = Value x \<longrightarrow> x \<notin> set (map ident [ada])"
    using i by simp
  have h11: "grade_in bobBody = Absent \<or> (\<exists>g. grade_in bobBody = Value g \<and> g \<in> set grades)"
    using g by simp
  have h15: "id_in bobBody = Absent \<or> (\<exists>x. id_in bobBody = Value x)" using i by simp
  have s5: "saved atFive = 5" by (simp add: atFive_def)
  from createStudent_valid [OF h1 h2 h3 h4 h5 h6 h7 h8 h9 h10 h11 h12 h13 h14 h15 h16 h17 h18,
      of atFive]
  obtain d where
    r: "createStudent atFive bobId bobBody [ada] =
          (ok 201 (Some ''Student created successfully'') (Document d), [ada] @ [d])"
    and d1: "id_in bobBody = Absent \<longrightarrow> ident d = bobId"
    and d2: "createdAt_in bobBody = Absent \<or> createdAt_in bobBody = Null \<longrightarrow>
             createdAt d = saved atFive"
    and d3: "updatedAt d = createdAt d"
    and d4: "name d = trim '' Bob ''" and d5: "email d = toLowerCase ''Bob@Example.com''"
    and d6: "grade_in bobBody = Absent \<longrightarrow> grade d = ''C''"
    by blast
  have "ident d = bobId \<and> createdAt d = 5 \<and> updatedAt d = 5 \<and> name d = ''Bob'' \<and>
        email d = ''bob@example.com'' \<and> grade d = ''C''"
    using d1 d2 d3 d4 d5 d6 i cr g s5 tn te by simp
  then show ?thesis using h1 g i cr h10 h16 r by blast
qed

theorem createStudent_invalid_grade_counterexample:
  "name_path (name_in badGradeBody) = Inr ''Bob'' \<and>
   age_path (age_in badGradeBody) = Inr 20 \<and>
   course_path (course_in badGradeBody) = Inr ''Arts'' \<and>
   email_path (email_in badGradeBody) = Inr ''bob@example.com'' \<and>
   ''bob@example.com'' \<notin> set (map email [ada]) \<and>
   createStudent atFive bobId badGradeBody [ada] =
     (validationFailure [''`Z` is not a valid enum value for path `grade`.''], [ada]) \<and>
   status (fst (createStudent atFive bobId badGradeBody [ada])) = 400 \<and>
   createdAt_in backdatedBody = Value 99 \<and> id_in backdatedBody = Value carolId \<and>
   createStudent atFive bobId backdatedBody [ada] =
     (ok 201 (Some ''Student created successfully'') (Document backdated), [ada, backdated]) \<and>
   saved atFive = 5 \<and> createdAt backdated = 99 \<and> updatedAt backdated = 99 \<and>
   ident backdated \<noteq> bobId"
  by code_simp

text \<open>
  C2. A create request that passes validation and whose email equals, ignoring letter
  case, the email of a stored student (stored emails being lower-cased on write)
  returns 400 with the message \<open>Email already exists\<close> and leaves the collection
  unchanged.
\<close>

theorem createStudent_duplicate_email:
  assumes "validationErrors now b = []"
    and "email_in b = Value e"
    and "d \<in> set s" and "toLowerCase e = toLowerCase (email d)"
    and "wellFormed s"
  shows "createStudent now oid b s = (failure 400 ''Email already exists'', s) \<and>
         status (fst (createStudent now oid b s)) = 400 \<and>
         message (fst (createStudent now oid b s)) = Some ''Email already exists'' \<and>
         snd (createStudent now oid b s) = s"
proof -
  have "\<forall>p. pathError now b p = None" using assms(1) by (simp add: validationErrors_Nil)
  from newStudent_Inr [OF this, of oid] obtain n a c e' g t i cr where
    e': "email_path (email_in b) = Inr e'" and
    new: "newStudent now oid b =
      Inr \<lparr>ident = orElse i oid, name = n, age = a, course = c, email = e', grade = g,
           enrollmentDate = t, createdAt = orElse cr (saved now),
           updatedAt = orElse cr (saved now)\<rparr>"
    by blast
  define x where "x = \<lparr>ident = orElse i oid, name = n, age = a, course = c, email = e',
           grade = g, enrollmentDate = t, createdAt = orElse cr (saved now),
           updatedAt = orElse cr (saved now)\<rparr>"
  have x: "newStudent now oid b = Inr x" and "email x = e'"
    using new by (simp_all add: x_def)
  then have "email x = toLowerCase e"
    using assms(2) e' by (auto simp: email_path_def Let_def split: if_splits)
  moreover have "toLowerCase (email d) = email d"
    using assms(3,5) by (auto simp: wellFormed_def list_all_iff validStudent_def)
  ultimately have "email x \<in> set (map email s)" using assms(3,4) by auto
  then have "createStudent now oid b s = (failure 400 ''Email already exists'', s)"
    using x by (simp add: createStudent_def Student_create_def DuplicateKey_def)
  then show ?thesis by (simp add: failure_def)
qed

theorem createStudent_duplicate_email_witness:
  "validationErrors atFive duplicateBody = [] \<and>
   email_in duplicateBody = Value ''ADA@Example.com'' \<and>
   toLowerCase ''ADA@Example.com'' = toLowerCase (email ada) \<and> wellFormed [ada] \<and>
   createStudent atFive bobId duplicateBody [ada] = (failure 400 ''Email already exists'', [ada])"
proof -
  have h1: "validationErrors atFive duplicateBody = []" by code_simp
  have h2: "email_in duplicateBody = Value ''ADA@Example.com''"
    by (simp add: duplicateBody_def bobBody_def)
  have h3: "ada \<in> set [ada]" by simp
  have h4: "toLowerCase ''ADA@Example.com'' = toLowerCase (email ada)" by code_simp
  have h5: "wellFormed [ada]" by code_simp
  from createStudent_duplicate_email [OF h1 h2 h3 h4 h5, of bobId]
  show ?thesis using h1 h2 h4 h5 by simp
qed

theorem createStudent_duplicate_invalid_counterexample:
  "email_in tooYoungBody = Value ''ADA@Example.com'' \<and>
   toLowerCase ''ADA@Example.com'' = email ada \<and>
   createStudent atFive bobId tooYoungBody [ada] =
     (validationFailure [''Age must be at least 16''], [ada]) \<and>
   message (fst (createStudent atFive bobId tooYoungBody [ada])) \<noteq> Some ''Email already exists''"
  by code_simp

text \<open>
  C3. A create request whose body violates the constraints of one or more paths
  returns 400 with an errors list that holds exactly one message for each violated
  path: as many messages as violated paths, the message of every violated path among
  them, and no other message. The collection is unchanged.
\<close>

theorem createStudent_collects_all_violations:
  assumes "\<exists>p. pathError now b p \<noteq> None"
  shows "\<exists>msgs.
           createStudent now oid b s = (validationFailure msgs, s) \<and>
           status (fst (createStudent now oid b s)) = 400 \<and>
           errors (fst (createStudent now oid b s)) = Some msgs \<and>
           length msgs = length (filter (\<lambda>p. pathError now b p \<noteq> None) schemaPaths) \<and>
           (\<forall>p m. pathError now b p = Some m \<longrightarrow> m \<in> set msgs) \<and>
           (\<forall>m\<in>set msgs. \<exists>p. pathError now b p = Some m)"
proof -
  obtain p m where "pathError now b p = Some m" using assms by auto
  then have "newStudent now oid b = Inl (validationErrors now b)" by (rule newStudent_Inl)
  then have "createStudent now oid b s = (validationFailure (validationErrors now b), s)"
    by (simp add: createStudent_def Student_create_def ValidationError_def)
  moreover have "length (validationErrors now b) =
      length (filter (\<lambda>p. pathError now b p \<noteq> None) schemaPaths)"
    by (simp add: validationErrors_def length_map_filter)
  moreover have "\<forall>p m. pathError now b p = Some m \<longrightarrow> m \<in> set (validationErrors now b)"
    using path_in_schemaPaths by (auto simp: validationErrors_def set_map_filter)
  moreover have "\<forall>m\<in>set (validationErrors now b). \<exists>p. pathError now b p = Some m"
    by (auto simp: validationErrors_def set_map_filter)
  ultimately show ?thesis by (simp add: validationFailure_def)
qed

theorem createStudent_collects_all_violations_witness:
  "pathError atFive brokenBody Age = Some ''Age must be at least 16'' \<and>
   pathError atFive brokenBody Email = Some ''Email is required'' \<and>
   (\<exists>msgs. createStudent atFive bobId brokenBody [ada] = (validationFailure msgs, [ada]) \<and>
      length msgs = 5 \<and> ''Age must be at least 16'' \<in> set msgs \<and>
      ''Email is required'' \<in> set msgs)"
proof -
  have a: "pathError atFive brokenBody Age = Some ''Age must be at least 16''" by code_simp
  have e: "pathError atFive brokenBody Email = Some ''Email is required''" by code_simp
  have n: "length (filter (\<lambda>p. pathError atFive brokenBody p \<noteq> None) schemaPaths) = 5"
    by code_simp
  have "pathError atFive brokenBody Age \<noteq> None" unfolding a by simp
  then have "\<exists>p. pathError atFive brokenBody p \<noteq> None" by (rule exI)
  from createStudent_collects_all_violations [OF this, of bobId "[ada]"] obtain msgs where
    m1: "createStudent atFive bobId brokenBody [ada] = (validationFailure msgs, [ada])"
    and m2: "length msgs =
      length (filter (\<lambda>p. pathError atFive brokenBody p \<noteq> None) schemaPaths)"
    and m3: "\<forall>p m. pathError atFive brokenBody p = Some m \<longrightarrow> m \<in> set msgs"
    by blast
  have "length msgs = 5" by (simp only: m2 n)
  moreover have "''Age must be at least 16'' \<in> set msgs" using m3 a by blast
  moreover have "''Email is required'' \<in> set msgs" using m3 e by blast
  ultimately show ?thesis using a e m1 by blast
qed



text \<open>
  C5. An update on a well-formed identifier whose body has no value that fails its
  cast and sets \<open>course\<close> to a string that, trimmed, is not empty and not one of the
  eight courses returns 400 with an errors list that holds the message naming the
  trimmed value, and leaves the collection unchanged.
\<close>

theorem updateStudent_invalid_course:
  assumes "castObjectId i = Some oid"
    and "\<not> castFails b"
    and "course_in b = Value c" and "trim c \<noteq> []" and "trim c \<notin> set courses"
  shows "\<exists>msgs.
           updateStudent now i b s = (validationFailure msgs, s) \<and>
           status (fst (updateStudent now i b s)) = 400 \<and>
           errors (fst (updateStudent now i b s)) = Some msgs \<and>
           trim c @ '' is not a valid course'' \<in> set msgs \<and>
           snd (updateStudent now i b s) = s"
proof -
  let ?m = "trim c @ '' is not a valid course''"
  have m: "updatePathError now b Course = Some ?m"
    using assms(3-5) by (simp add: update_path_def course_path_def messageOf_def Let_def)
  then have "updateValidators now b = Inl (updateErrors now b)"
    by (rule updateValidators_Inl)
  moreover have "castUpdateError b = None"
    using assms(2) by (simp add: castUpdateError_None)
  ultimately have
    "updateStudent now i b s = (validationFailure (updateErrors now b), s)"
    using assms(1)
    by (simp add: updateStudent_def Student_findByIdAndUpdate_def ValidationError_def)
  moreover have "?m \<in> set (updateErrors now b)"
    using m path_in_schemaPaths [of Course]
    unfolding updateErrors_def set_map_filter by blast
  ultimately show ?thesis
    by (intro exI [of _ "updateErrors now b"]) (simp add: validationFailure_def)
qed

theorem updateStudent_invalid_course_witness:
  "castObjectId adaId = Some (ident ada) \<and> \<not> castFails astrologyBody \<and>
   course_in astrologyBody = Value '' Astrology '' \<and> trim '' Astrology '' = ''Astrology'' \<and>
   ''Astrology'' \<notin> set courses \<and>
   (\<exists>msgs. updateStudent 7 adaId astrologyBody [ada] = (validationFailure msgs, [ada]) \<and>
      ''Astrology is not a valid course'' \<in> set msgs)"
proof -
  have h1: "castObjectId adaId = Some (ident ada)" by code_simp
  have h2: "\<not> castFails astrologyBody" by code_simp
  have h3: "course_in astrologyBody = Value '' Astrology ''"
    by (simp add: astrologyBody_def emptyBody_def)
  have t: "trim '' Astrology '' = ''Astrology''" by code_simp
  have h4: "trim '' Astrology '' \<noteq> []" by code_simp
  have n: "''Astrology'' \<notin> set courses" by code_simp
  then have h5: "trim '' Astrology '' \<notin> set courses" using t by simp
  from updateStudent_invalid_course [OF h1 h2 h3 h4 h5, of 7 "[ada]"]
  show ?thesis using h1 h2 h3 t n by auto
qed

theorem updateStudent_invalid_course_counterexample:
  "course_in astrologyCastBody = Value '' Astrology '' \<and>
   trim '' Astrology '' \<notin> set courses \<and>
   updateStudent 7 adaId astrologyCastBody [ada] = (failure 400 ''Invalid student ID'', [ada]) \<and>
   errors (fst (updateStudent 7 adaId astrologyCastBody [ada])) = None \<and>
   course_in blankCourseBody = Value '' '' \<and> '' '' \<notin> set courses \<and>
   updateStudent 7 adaId blankCourseBody [ada] =
     (validationFailure [''Course is required''], [ada])"
  by code_simp

text \<open>
  C6. No operation changes the identifier of a stored student. After any sequence
  of requests, every student of the collection is still stored under the same
  identifier (and with the same \<open>createdAt\<close>), unless the sequence holds a delete
  request for that identifier. An update leaves the identifiers of the collection
  as they were, position by position, and the record it returns carries the
  identifier of the request. An update whose body carries another \<open>_id\<close> than the
  stored one (or \<open>null\<close>) and gets as far as the server is refused there: the
  handler answers 500 and the collection is unchanged.
\<close>

theorem identifier_never_changes:
  "(\<forall>d\<in>set s.
      (\<exists>i. DELETE_student i \<in> set rs \<and> castObjectId i = Some (ident d)) \<or>
      (\<exists>x\<in>set (run rs s). ident x = ident d \<and> createdAt x = createdAt d)) \<and>
   map ident (snd (updateStudent now i b s)) = map ident s \<and>
   (\<forall>msg d'. fst (updateStudent now i b s) = ok 200 msg (Document d') \<longrightarrow>
      castObjectId i = Some (ident d') \<and> d' \<in> set (snd (updateStudent now i b s))) \<and>
   (\<forall>d x. castObjectId i = Some (ident d) \<and> d \<in> set s \<and> distinct (map ident s) \<and>
      \<not> castFails b \<and> updateErrors now b = [] \<and>
      (id_in b = Value x \<or> id_in b = Null \<and> x = nullId) \<and> x \<noteq> ident d \<longrightarrow>
      updateStudent now i b s = (serverError ImmutableField, s) \<and>
      status (fst (updateStudent now i b s)) = 500)"
proof (intro conjI ballI allI impI)
  fix d assume "d \<in> set s"
  then show "(\<exists>i. DELETE_student i \<in> set rs \<and> castObjectId i = Some (ident d)) \<or>
      (\<exists>x\<in>set (run rs s). ident x = ident d \<and> createdAt x = createdAt d)"
    by (rule run_keeps)
next
  from updateStudent_result [of now i b s]
  show "map ident (snd (updateStudent now i b s)) = map ident s"
  proof
    assume "status (fst (updateStudent now i b s)) \<noteq> 200 \<and> snd (updateStudent now i b s) = s"
    then show ?thesis by simp
  next
    assume "\<exists>oid ch d.
      castObjectId i = Some oid \<and> updateValidators now b = Inr ch \<and>
      find (\<lambda>x. ident x = oid) s = Some d \<and>
      ident (applyChanges now ch d) = ident d \<and>
      \<not> (email (applyChanges now ch d) \<noteq> email d \<and>
         email (applyChanges now ch d) \<in> set (map email s)) \<and>
      updateStudent now i b s =
        (ok 200 (Some ''Student updated successfully'') (Document (applyChanges now ch d)),
         replaceFirst oid (applyChanges now ch d) s)"
    then obtain oid ch d where f: "find (\<lambda>x. ident x = oid) s = Some d"
      and same: "ident (applyChanges now ch d) = ident d"
      and st: "snd (updateStudent now i b s) = replaceFirst oid (applyChanges now ch d) s"
      by auto
    have "ident (applyChanges now ch d) = oid"
      using find_ident_Some [OF f] same by simp
    then show ?thesis using st by (simp add: ident_replaceFirst)
  qed
next
  fix msg d' assume ok: "fst (updateStudent now i b s) = ok 200 msg (Document d')"
  then have "status (fst (updateStudent now i b s)) = 200" by (simp add: ok_def)
  with updateStudent_result [of now i b s] obtain oid ch d where
    c: "castObjectId i = Some oid" and f: "find (\<lambda>x. ident x = oid) s = Some d"
    and same: "ident (applyChanges now ch d) = ident d"
    and u: "updateStudent now i b s =
        (ok 200 (Some ''Student updated successfully'') (Document (applyChanges now ch d)),
         replaceFirst oid (applyChanges now ch d) s)"
    by auto
  have d': "d' = applyChanges now ch d" using ok u by (simp add: ok_def)
  show "castObjectId i = Some (ident d')"
    using c d' same find_ident_Some [OF f] by simp
  show "d' \<in> set (snd (updateStudent now i b s))"
    using u d' replaceFirst_mem [OF f] by simp
next
  fix d x
  assume h: "castObjectId i = Some (ident d) \<and> d \<in> set s \<and> distinct (map ident s) \<and>
      \<not> castFails b \<and> updateErrors now b = [] \<and>
      (id_in b = Value x \<or> id_in b = Null \<and> x = nullId) \<and> x \<noteq> ident d"
  then have h1: "castObjectId i = Some (ident d)" and h2: "d \<in> set s"
    and h3: "distinct (map ident s)" and h4: "\<not> castFails b"
    and h5: "updateErrors now b = []"
    and h6: "id_in b = Value x \<or> id_in b = Null \<and> x = nullId" and h7: "x \<noteq> ident d"
    by simp_all
  have f: "find (\<lambda>y. ident y = ident d) s = Some d" using h3 h2 by (rule find_ident)
  have cast: "castUpdateError b = None" using h4 by (simp add: castUpdateError_None)
  have "\<forall>p. updatePathError now b p = None"
    using updateErrors_Nil [of now b] h5 by (rule iffD1)
  then have "\<exists>ch. updateValidators now b = Inr ch" by (rule updateValidators_total)
  then obtain ch where ch: "updateValidators now b = Inr ch" ..
  have "set_id ch = idChange (id_in b)" using updateValidators_Inr [OF ch] by simp
  then have "set_id ch = Some x" using h6 by (auto simp: idChange_def)
  then have "ident (applyChanges now ch d) \<noteq> ident d"
    using h7 by (simp add: applyChanges_def orElse_def)
  then have r: "updateStudent now i b s = (serverError ImmutableField, s)"
    using h1 f cast ch
    by (simp add: updateStudent_def Student_findByIdAndUpdate_def Let_def ImmutableField_def)
  then show "updateStudent now i b s = (serverError ImmutableField, s)" .
  show "status (fst (updateStudent now i b s)) = 500" using r by (simp add: serverError_def)
qed

theorem identifier_never_changes_witness:
  "run [PUT_student 7 adaId physicsBody, DELETE_student ''aaaaaaaaaaaa''] [ada] =
     [ada\<lparr>course := ''Physics'', updatedAt := 7\<rparr>] \<and>
   (\<exists>x\<in>set (run [PUT_student 7 adaId physicsBody, DELETE_student ''aaaaaaaaaaaa''] [ada]).
      ident x = ident ada \<and> createdAt x = createdAt ada) \<and>
   map ident (snd (updateStudent 7 adaId physicsBody [ada])) = map ident [ada] \<and>
   fst (updateStudent 7 adaId physicsBody [ada]) =
     ok 200 (Some ''Student updated successfully'')
       (Document (ada\<lparr>course := ''Physics'', updatedAt := 7\<rparr>)) \<and>
   castObjectId adaId = Some (ident (ada\<lparr>course := ''Physics'', updatedAt := 7\<rparr>)) \<and>
   id_in renamingBody = Value bobId \<and> bobId \<noteq> ident ada \<and>
   updateStudent 7 adaId renamingBody [ada] = (serverError ImmutableField, [ada]) \<and>
   status (fst (updateStudent 7 adaId renamingBody [ada])) = 500"
proof -
  let ?rs = "[PUT_student 7 adaId physicsBody, DELETE_student ''aaaaaaaaaaaa'']"
  let ?d = "ada\<lparr>course := ''Physics'', updatedAt := 7\<rparr>"
  have r: "run ?rs [ada] = [?d]" by code_simp
  have u: "fst (updateStudent 7 adaId physicsBody [ada]) =
     ok 200 (Some ''Student updated successfully'') (Document ?d)" by code_simp
  have nd: "castObjectId ''aaaaaaaaaaaa'' \<noteq> Some (ident ada)" by code_simp
  have nodel: "\<not> (\<exists>i. DELETE_student i \<in> set ?rs \<and> castObjectId i = Some (ident ada))"
    using nd by auto
  note t = identifier_never_changes [of "[ada]" ?rs 7 adaId physicsBody]
  note t1 = conjunct1 [OF t]
  note t2 = conjunct1 [OF conjunct2 [OF t]]
  note t3 = conjunct1 [OF conjunct2 [OF conjunct2 [OF t]]]
  have "\<exists>x\<in>set (run ?rs [ada]). ident x = ident ada \<and> createdAt x = createdAt ada"
    using t1 nodel by auto
  moreover have "map ident (snd (updateStudent 7 adaId physicsBody [ada])) = map ident [ada]"
    by (rule t2)
  moreover have "castObjectId adaId = Some (ident ?d)"
    using t3 u by blast
  moreover have i: "id_in renamingBody = Value bobId"
    by (simp add: renamingBody_def emptyBody_def)
  moreover have ne: "bobId \<noteq> ident ada" by code_simp
  moreover have "updateStudent 7 adaId renamingBody [ada] = (serverError ImmutableField, [ada]) \<and>
      status (fst (updateStudent 7 adaId renamingBody [ada])) = 500"
  proof -
    have c: "castObjectId adaId = Some (ident ada)" by code_simp
    have m: "ada \<in> set [ada]" and ds: "distinct (map ident [ada])" by simp_all
    have cf: "\<not> castFails renamingBody" by code_simp
    have ue: "updateErrors 7 renamingBody = []" by code_simp
    note t4 = conjunct2 [OF conjunct2 [OF conjunct2
      [OF identifier_never_changes [of "[ada]" "[]" 7 adaId renamingBody]]]]
    from t4 [rule_format, of ada bobId] c m ds cf ue i ne
    show ?thesis by (simp add: serverError_def)
  qed
  ultimately show ?thesis using r u by blast
qed

text \<open>
  C7. For every stored student (in a collection whose identifiers are unique, as
  the index on \<open>_id\<close> guarantees), delete by id with its identifier returns 200 with
  an empty data payload, and a following get by id with the same identifier returns
  404.
\<close>

theorem delete_then_get:
  assumes "d \<in> set s" and "distinct (map ident s)" and "castObjectId i = Some (ident d)"
  shows "fst (deleteStudent i s) = ok 200 (Some ''Student deleted successfully'') EmptyObject \<and>
         status (fst (deleteStudent i s)) = 200 \<and>
         data (fst (deleteStudent i s)) = Some EmptyObject \<and>
         getStudentById i (snd (deleteStudent i s)) = failure 404 ''Student not found'' \<and>
         status (getStudentById i (snd (deleteStudent i s))) = 404"
proof -
  have del: "deleteStudent i s =
      (ok 200 (Some ''Student deleted successfully'') EmptyObject, removeFirst (ident d) s)"
    using assms by (simp add: deleteStudent_def Student_findByIdAndDelete_def find_ident)
  have "ident d \<notin> set (map ident (removeFirst (ident d) s))"
    using assms(2) by (simp add: ident_removeFirst)
  then have "find (\<lambda>x. ident x = ident d) (removeFirst (ident d) s) = None"
    by (rule find_ident_none)
  then have "getStudentById i (removeFirst (ident d) s) = failure 404 ''Student not found''"
    using assms(3) by (simp add: getStudentById_def Student_findById_def)
  with del show ?thesis by (simp add: ok_def failure_def)
qed

theorem delete_then_get_witness:
  "castObjectId adaId = Some (ident ada) \<and> distinct (map ident [ada, bob]) \<and>
   fst (deleteStudent adaId [ada, bob]) =
     ok 200 (Some ''Student deleted successfully'') EmptyObject \<and>
   getStudentById adaId (snd (deleteStudent adaId [ada, bob])) =
     failure 404 ''Student not found''"
proof -
  have h1: "ada \<in> set [ada, bob]" by simp
  have h2: "distinct (map ident [ada, bob])" by code_simp
  have h3: "castObjectId adaId = Some (ident ada)" by code_simp
  from delete_then_get [OF h1 h2 h3] show ?thesis using h2 h3 by simp
qed

text \<open>
  C8. For every collection, list all returns 200 with every stored student, none
  left out and none twice, newest first (\<open>createdAt\<close> descending), and a count
  equal to the number of records returned.
\<close>

theorem getAllStudents_newest_first:
  "\<exists>students.
     getAllStudents s = listing students \<and>
     status (getAllStudents s) = 200 \<and>
     data (getAllStudents s) = Some (Documents students) \<and>
     count_json (getAllStudents s) = Some (length students) \<and>
     mset students = mset s \<and>
     sorted_wrt (\<lambda>a b. createdAt b \<le> createdAt a) students"
proof -
  let ?xs = "sort_key (\<lambda>d. - createdAt d) s"
  have "sorted (map (\<lambda>d. - createdAt d) ?xs)" by (rule sorted_sort_key)
  then have "sorted_wrt (\<lambda>a b. createdAt b \<le> createdAt a) ?xs"
    by (simp add: sorted_wrt_map)
  then show ?thesis
    by (intro exI [of _ ?xs]) (simp add: getAllStudents_def Student_find_sorted_def listing_def)
qed

theorem getAllStudents_newest_first_witness:
  "getAllStudents [bob, ada] = listing [ada, bob] \<and>
   (\<exists>students. getAllStudents [bob, ada] = listing students \<and>
      mset students = mset [bob, ada] \<and>
      sorted_wrt (\<lambda>a b. createdAt b \<le> createdAt a) students)"
proof -
  have "getAllStudents [bob, ada] = listing [ada, bob]" by code_simp
  then show ?thesis using getAllStudents_newest_first [of "[bob, ada]"] by blast
qed

text \<open>
  C9. For every course path parameter, list by course returns 200 with exactly the
  stored students whose course equals the parameter with the white space at its
  ends trimmed (case-sensitive), and a count equal to their number; when no stored
  student has that course, in particular when the trimmed parameter is none of the
  eight courses and the collection is well formed, the list is empty and the count
  is 0.
\<close>

theorem getStudentsByCourse_trimmed:
  "\<exists>students.
     getStudentsByCourse c s = listing students \<and>
     status (getStudentsByCourse c s) = 200 \<and>
     data (getStudentsByCourse c s) = Some (Documents students) \<and>
     count_json (getStudentsByCourse c s) = Some (length students) \<and>
     students = filter (\<lambda>d. course d = trim c) s \<and>
     (trim c \<notin> set (map course s) \<longrightarrow> students = []) \<and>
     (wellFormed s \<and> trim c \<notin> set courses \<longrightarrow> students = [])"
proof -
  let ?xs = "filter (\<lambda>d. course d = trim c) s"
  have r: "getStudentsByCourse c s = listing ?xs"
    by (simp add: getStudentsByCourse_def Student_find_course_def)
  have e1: "trim c \<notin> set (map course s) \<longrightarrow> ?xs = []"
    by (force simp: filter_empty_conv)
  have e2: "wellFormed s \<and> trim c \<notin> set courses \<longrightarrow> ?xs = []"
    by (auto simp: filter_empty_conv wellFormed_def list_all_iff validStudent_def)
  show ?thesis using r e1 e2
    by (intro exI [of _ ?xs]) (simp add: listing_def)
qed

theorem getStudentsByCourse_trimmed_witness:
  "trim ''Astrology'' \<notin> set (map course [ada, bob]) \<and>
   getStudentsByCourse ''Astrology'' [ada, bob] = listing [] \<and>
   getStudentsByCourse ''Arts'' [ada, bob] = listing [bob] \<and>
   (\<exists>students. getStudentsByCourse ''Astrology'' [ada, bob] = listing students \<and>
      students = [] \<and> count_json (getStudentsByCourse ''Astrology'' [ada, bob]) = Some 0)"
proof -
  have h: "trim ''Astrology'' \<notin> set (map course [ada, bob])" by code_simp
  have a: "getStudentsByCourse ''Arts'' [ada, bob] = listing [bob]" by code_simp
  from getStudentsByCourse_trimmed [of "''Astrology''" "[ada, bob]"] obtain students where
    s: "getStudentsByCourse ''Astrology'' [ada, bob] = listing students"
    and c: "count_json (getStudentsByCourse ''Astrology'' [ada, bob]) = Some (length students)"
    and e: "trim ''Astrology'' \<notin> set (map course [ada, bob]) \<longrightarrow> students = []"
    by blast
  have "students = []" using e h by blast
  then show ?thesis using h a s c by simp
qed

theorem getStudentsByCourse_exact_counterexample:
  "'' Arts '' \<notin> set courses \<and> course bob \<noteq> '' Arts '' \<and>
   filter (\<lambda>d. course d = '' Arts '') [ada, bob] = [] \<and>
   getStudentsByCourse '' Arts '' [ada, bob] = listing [bob] \<and>
   data (getStudentsByCourse '' Arts '' [ada, bob]) = Some (Documents [bob]) \<and>
   count_json (getStudentsByCourse '' Arts '' [ada, bob]) = Some 1"
  by code_simp



text \<open>
  The invariants of the data model: a collection with unique identifiers, unique
  lower-cased emails that match the pattern, and every field within its constraints
  stays so under every sequence of requests.
\<close>

theorem wellFormed_preserved:
  assumes "wellFormed s"
  shows "wellFormed (run rs s)"
  using assms by (rule wellFormed_run)

theorem wellFormed_preserved_witness:
  "wellFormed [ada] \<and>
   wellFormed (run [POST_students atFive bobId bobBody, PUT_student 7 adaId physicsBody] [ada])"
proof -
  have h: "wellFormed [ada]" by code_simp
  from wellFormed_preserved [OF h] show ?thesis using h by blast
qed

end
